theory Spec2Isabelle
  imports Main
begin

section \<open>Raw configuration documents\<close>

text \<open>
  A raw document (what the YAML loader and \<^verbatim>\<open>build_raw_from_options\<close> hand to
  \<^verbatim>\<open>_init_config\<close>) is built of scalars, lists and dictionaries. The scalar type
  is left open (\<open>'a\<close>): \<^verbatim>\<open>_merge_dicts\<close> never looks inside a scalar.

  A Python \<^verbatim>\<open>dict\<close> is modelled as an association list in insertion order. Python
  keeps the keys of a dict distinct; where a statement needs that, it says
  \<open>distinct (map fst d)\<close>.

  The type \<open>'a raw\<close> is a document written as a tree: a value of it says what stands at
  every path and nothing about which dictionary objects hold it. Where the identity of
  the objects matters (\<^verbatim>\<open>_merge_dicts\<close> changes its first argument in place), the
  dictionaries live in a store, defined below.

  A function the source names with a leading underscore (\<^verbatim>\<open>_merge_dicts\<close>,
  \<^verbatim>\<open>_get_config_scheme\<close>, \<^verbatim>\<open>_init_config\<close>) has its name without it here.
\<close>

datatype 'a raw =
    Scalar 'a
  | List "'a raw list"
  | Dict "(string \<times> 'a raw) list"

type_synonym 'a dict = "(string \<times> 'a raw) list"

text \<open>\<^verbatim>\<open>key in d\<close> and \<^verbatim>\<open>d[key]\<close> together: \<open>None\<close> when the key is absent.\<close>

definition dict_get :: "(string \<times> 'v) list \<Rightarrow> string \<Rightarrow> 'v option" where
  "dict_get d key = map_of d key"

text \<open>
  \<^verbatim>\<open>d[key] = v\<close>: an existing key keeps its position and gets the new value,
  a new key is appended.
\<close>

primrec dict_set :: "string \<Rightarrow> 'v \<Rightarrow> (string \<times> 'v) list \<Rightarrow> (string \<times> 'v) list" where
  "dict_set key v [] = [(key, v)]"
| "dict_set key v (p # ps) = (if fst p = key then (key, v) # ps else p # dict_set key v ps)"

subsection \<open>\<^verbatim>\<open>_merge_dicts\<close>\<close>

text \<open>
  \<^verbatim>\<open>
  def _merge_dicts(dest: Dict, src: Dict) -> None:
      for key in src:
          if key in dest:
              if isinstance(dest[key], dict) and isinstance(src[key], dict):
                  _merge_dicts(dest[key], src[key])
                  continue
          dest[key] = src[key]
  \<close>
  The function returns nothing: it changes the dictionary object \<^verbatim>\<open>dest\<close>, and the
  dictionary objects below it, in place. An object that is reachable from \<^verbatim>\<open>dest\<close>
  along two paths (a YAML alias gives one) is changed at both.

  First the loop on a dictionary that nothing else refers to, where changing it in
  place and returning its new content are the same: \<open>merge_trees dest src\<close> is the
  content of \<^verbatim>\<open>dest\<close> after the loop, both written as trees. The loop over the keys of
  \<^verbatim>\<open>src\<close> is the recursion over the entries of \<open>src\<close>.
\<close>

fun merge_trees :: "'a dict \<Rightarrow> 'a dict \<Rightarrow> 'a dict" where
  "merge_trees dest [] = dest"
| "merge_trees dest ((key, v) # src) =
     (case dict_get dest key of
        Some (Dict d) \<Rightarrow>
          (case v of
             Dict s \<Rightarrow> merge_trees (dict_set key (Dict (merge_trees d s)) dest) src
           | _ \<Rightarrow> merge_trees (dict_set key v dest) src)
      | _ \<Rightarrow> merge_trees (dict_set key v dest) src)"

text \<open>
  What one step of the loop leaves at \<open>key\<close>, written out for the statements below:
  the merged dictionary when both values are dictionaries, the value of \<^verbatim>\<open>src\<close>
  otherwise.
\<close>

definition merged_value :: "'a raw option \<Rightarrow> 'a raw \<Rightarrow> 'a raw" where
  "merged_value old v =
     (case old of
        Some (Dict d) \<Rightarrow> (case v of Dict s \<Rightarrow> Dict (merge_trees d s) | _ \<Rightarrow> v)
      | _ \<Rightarrow> v)"

text \<open>
  The store. A dictionary object has an address, and the store gives the entries of
  the object at each address. The value of an entry is a reference \<open>Ref a\<close> to the
  dictionary object at \<open>a\<close>, which other entries may refer to as well, or a value held
  by this entry alone, \<open>Val t\<close>: a scalar, a list, or a dictionary that nothing else
  refers to, written as the tree \<open>t\<close>.
\<close>

datatype 'a hval = Val "'a raw" | Ref nat

type_synonym 'a hdict = "(string \<times> 'a hval) list"

type_synonym 'a heap = "nat \<Rightarrow> 'a hdict"

text \<open>
  \<^verbatim>\<open>_merge_dicts\<close> on the store: \<open>dest\<close> is the address of the object to change, and the
  result is the store after the call. \<^verbatim>\<open>src\<close> is only read; it is the mapping
  \<^verbatim>\<open>build_raw_from_options\<close> has just built from the option strings, a tree, and
  \<^verbatim>\<open>dest[key] = src[key]\<close> stores its value at the key. The recursive call on a
  referenced object changes the store at the address of that object, so every entry
  that refers to it sees the change; on a dictionary held by the entry alone it is
  \<open>merge_trees\<close>.
\<close>

fun merge_dicts :: "'a heap \<Rightarrow> nat \<Rightarrow> 'a dict \<Rightarrow> 'a heap" where
  "merge_dicts h dest [] = h"
| "merge_dicts h dest ((key, v) # src) =
     (case dict_get (h dest) key of
        Some (Ref d) \<Rightarrow>
          (case v of
             Dict s \<Rightarrow> merge_dicts (merge_dicts h d s) dest src
           | _ \<Rightarrow> merge_dicts (h(dest := dict_set key (Val v) (h dest))) dest src)
      | Some (Val (Dict d)) \<Rightarrow>
          (case v of
             Dict s \<Rightarrow>
               merge_dicts (h(dest := dict_set key (Val (Dict (merge_trees d s))) (h dest))) dest src
           | _ \<Rightarrow> merge_dicts (h(dest := dict_set key (Val v) (h dest))) dest src)
      | _ \<Rightarrow> merge_dicts (h(dest := dict_set key (Val v) (h dest))) dest src)"

text \<open>
  Reading a value of the store as a tree, following references at most \<open>n\<close> deep
  (\<open>None\<close> when that is not deep enough): what a program sees that walks the
  document from this value.
\<close>

fun read_tree :: "nat \<Rightarrow> 'a heap \<Rightarrow> 'a hval \<Rightarrow> 'a raw option"
  and read_entries :: "nat \<Rightarrow> 'a heap \<Rightarrow> 'a hdict \<Rightarrow> 'a dict option" where
  "read_tree n h (Val t) = Some t"
| "read_tree 0 h (Ref a) = None"
| "read_tree (Suc n) h (Ref a) = map_option Dict (read_entries n h (h a))"
| "read_entries n h [] = Some []"
| "read_entries n h ((k, v) # es) =
     (case read_tree n h v of
        None \<Rightarrow> None
      | Some t \<Rightarrow> (case read_entries n h es of None \<Rightarrow> None | Some d \<Rightarrow> Some ((k, t) # d)))"

text \<open>
  \<open>tree_val h F v t\<close>: in the store \<open>h\<close> the value \<open>v\<close> is the tree \<open>t\<close>, the dictionary
  objects it reaches are those at the addresses \<open>F\<close>, and each of them is reached along
  one path only. \<open>tree_entries\<close> is the same for the entries of a dictionary. This is
  the shape of a document loaded from a YAML file without aliases.
\<close>

inductive tree_val :: "'a heap \<Rightarrow> nat set \<Rightarrow> 'a hval \<Rightarrow> 'a raw \<Rightarrow> bool"
  and tree_entries :: "'a heap \<Rightarrow> nat set \<Rightarrow> 'a hdict \<Rightarrow> 'a dict \<Rightarrow> bool"
  for h :: "'a heap" where
  inline: "tree_val h {} (Val t) t"
| object: "tree_entries h F (h a) d \<Longrightarrow> a \<notin> F \<Longrightarrow> tree_val h (insert a F) (Ref a) (Dict d)"
| no_entries: "tree_entries h {} [] []"
| entry: "tree_val h F1 v t \<Longrightarrow> tree_entries h F2 es d \<Longrightarrow> F1 \<inter> F2 = {} \<Longrightarrow>
          tree_entries h (F1 \<union> F2) ((k, v) # es) ((k, t) # d)"

section \<open>Exceptions\<close>

text \<open>
  Every exception the modelled code raises or lets through, with its message.
  \<open>OtherError\<close> stands for any exception of a collaborator that the code does not
  name.
\<close>

datatype exn =
    ConfigError string
  | UnknownPluginError string
  | ModuleNotFoundError string
  | AttributeError string
  | ValueError string
  | KeyError string
  | TypeError string
  | SystemExit string
  | OtherError string

section \<open>The configuration scheme\<close>

text \<open>
  The scalars written in the scheme. A float is kept as the literal of the source
  (\<^verbatim>\<open>0.1\<close> is \<open>SFloat ''0.1''\<close>): nothing below computes with it.
\<close>

datatype scalar =
    SStr string
  | SInt int
  | SFloat string
  | SBool bool

text \<open>
  The validators named in the scheme, by name. \<open>valid_number_with\<close> is the source's
  \<^verbatim>\<open>lambda arg: valid_number(arg, min=..., type=...)\<close>: the \<^verbatim>\<open>min\<close> keyword and the
  \<^verbatim>\<open>type\<close> keyword when it is given.
\<close>

datatype validator =
    valid_bool
  | valid_number_with scalar "string option"
  | valid_int_f1
  | valid_float_f01
  | valid_users_list
  | valid_abs_path
  | valid_abs_path_exists
  | valid_unix_mode
  | valid_command
  | valid_ip_or_host
  | valid_port
  | valid_stream_quality
  | valid_stream_fps
  | valid_tty_speed
  | valid_gpio_pin
  | valid_gpio_pin_optional

text \<open>
  A scheme is a dictionary whose values are \<^verbatim>\<open>Option(default, type=, only_if=,
  unpack_as=)\<close> objects or nested dictionaries. A keyword the source leaves out is
  \<open>None\<close>.
\<close>

datatype node =
    Option "scalar raw" "validator option" "string option" "string option"
  | Section "(string \<times> node) list"

type_synonym scheme = "(string \<times> node) list"

subsection \<open>\<^verbatim>\<open>_get_config_scheme\<close>\<close>

text \<open>
  The dictionary literal of \<^verbatim>\<open>_get_config_scheme\<close>, section by section, in the
  order of the source: each nested dictionary of the literal is a definition named by
  its path, and \<open>full_scheme\<close> is the local variable \<^verbatim>\<open>scheme\<close>.
\<close>

definition scheme_kvmd_server :: scheme where
  "scheme_kvmd_server =
     [(''host'', Option (Scalar (SStr ''localhost'')) (Some valid_ip_or_host) None None),
      (''port'', Option (Scalar (SInt 0)) (Some valid_port) None None),
      (''unix'', Option (Scalar (SStr '''')) (Some valid_abs_path) (Some ''!port'') (Some ''unix_path'')),
      (''unix_rm'', Option (Scalar (SBool False)) (Some valid_bool) None None),
      (''unix_mode'', Option (Scalar (SInt 0)) (Some valid_unix_mode) None None),
      (''heartbeat'', Option (Scalar (SFloat ''3.0'')) (Some valid_float_f01) None None),
      (''access_log_format'', Option (Scalar (SStr (''[%P / %{X-Real-IP}i] '%r' => %s; size=%b --- referer='%{Referer}i'; user_agent='%{User-Agent}i'' @ [CHR 0x27]))) None None None)]"

definition scheme_kvmd_auth :: scheme where
  "scheme_kvmd_auth =
     [(''internal_type'', Option (Scalar (SStr ''htpasswd'')) None None None),
      (''external_type'', Option (Scalar (SStr '''')) None None None),
      (''internal_users'', Option (List []) (Some valid_users_list) None None)]"

definition scheme_kvmd_info :: scheme where
  "scheme_kvmd_info =
     [(''meta'', Option (Scalar (SStr ''/etc/kvmd/meta.yaml'')) (Some valid_abs_path_exists) None (Some ''meta_path'')),
      (''extras'', Option (Scalar (SStr ''/usr/share/kvmd/extras'')) (Some valid_abs_path_exists) None (Some ''extras_path''))]"

definition scheme_kvmd_hid :: scheme where
  "scheme_kvmd_hid =
     [(''reset_pin'', Option (Scalar (SInt (- 1))) (Some valid_gpio_pin) None None),
      (''reset_delay'', Option (Scalar (SFloat ''0.1'')) (Some valid_float_f01) None None),
      (''device'', Option (Scalar (SStr '''')) (Some valid_abs_path) None (Some ''device_path'')),
      (''speed'', Option (Scalar (SInt 115200)) (Some valid_tty_speed) None None),
      (''read_timeout'', Option (Scalar (SFloat ''2.0'')) (Some valid_float_f01) None None),
      (''read_retries'', Option (Scalar (SInt 10)) (Some valid_int_f1) None None),
      (''common_retries'', Option (Scalar (SInt 100)) (Some valid_int_f1) None None),
      (''retries_delay'', Option (Scalar (SFloat ''0.1'')) (Some valid_float_f01) None None),
      (''noop'', Option (Scalar (SBool False)) (Some valid_bool) None None),
      (''state_poll'', Option (Scalar (SFloat ''0.1'')) (Some valid_float_f01) None None)]"

definition scheme_kvmd_atx :: scheme where
  "scheme_kvmd_atx =
     [(''enabled'', Option (Scalar (SBool True)) (Some valid_bool) None None),
      (''power_led_pin'', Option (Scalar (SInt (- 1))) (Some valid_gpio_pin) (Some ''enabled'') None),
      (''hdd_led_pin'', Option (Scalar (SInt (- 1))) (Some valid_gpio_pin) (Some ''enabled'') None),
      (''power_led_inverted'', Option (Scalar (SBool True)) (Some valid_bool) None None),
      (''hdd_led_inverted'', Option (Scalar (SBool True)) (Some valid_bool) None None),
      (''power_switch_pin'', Option (Scalar (SInt (- 1))) (Some valid_gpio_pin) (Some ''enabled'') None),
      (''reset_switch_pin'', Option (Scalar (SInt (- 1))) (Some valid_gpio_pin) (Some ''enabled'') None),
      (''click_delay'', Option (Scalar (SFloat ''0.1'')) (Some valid_float_f01) None None),
      (''long_click_delay'', Option (Scalar (SFloat ''5.5'')) (Some valid_float_f01) None None),
      (''state_poll'', Option (Scalar (SFloat ''0.1'')) (Some valid_float_f01) None None)]"

definition scheme_kvmd_msd :: scheme where
  "scheme_kvmd_msd =
     [(''enabled'', Option (Scalar (SBool True)) (Some valid_bool) None None),
      (''target_pin'', Option (Scalar (SInt (- 1))) (Some valid_gpio_pin) (Some ''enabled'') None),
      (''reset_pin'', Option (Scalar (SInt (- 1))) (Some valid_gpio_pin) (Some ''enabled'') None),
      (''device'', Option (Scalar (SStr '''')) (Some valid_abs_path) (Some ''enabled'') (Some ''device_path'')),
      (''init_delay'', Option (Scalar (SFloat ''2.0'')) (Some valid_float_f01) None None),
      (''reset_delay'', Option (Scalar (SFloat ''1.0'')) (Some valid_float_f01) None None),
      (''write_meta'', Option (Scalar (SBool True)) (Some valid_bool) None None),
      (''chunk_size'', Option (Scalar (SInt 65536)) (Some (valid_number_with (SInt 1024) None)) None None)]"

definition scheme_kvmd_streamer :: scheme where
  "scheme_kvmd_streamer =
     [(''cap_pin'', Option (Scalar (SInt (- 1))) (Some valid_gpio_pin_optional) None None),
      (''conv_pin'', Option (Scalar (SInt (- 1))) (Some valid_gpio_pin_optional) None None),
      (''sync_delay'', Option (Scalar (SFloat ''1.0'')) (Some valid_float_f01) None None),
      (''init_delay'', Option (Scalar (SFloat ''1.0'')) (Some valid_float_f01) None None),
      (''init_restart_after'', Option (Scalar (SFloat ''0.0'')) (Some (valid_number_with (SFloat ''0.0'') (Some ''float''))) None None),
      (''shutdown_delay'', Option (Scalar (SFloat ''10.0'')) (Some valid_float_f01) None None),
      (''state_poll'', Option (Scalar (SFloat ''1.0'')) (Some valid_float_f01) None None),
      (''quality'', Option (Scalar (SInt 80)) (Some valid_stream_quality) None None),
      (''desired_fps'', Option (Scalar (SInt 0)) (Some valid_stream_fps) None None),
      (''host'', Option (Scalar (SStr ''localhost'')) (Some valid_ip_or_host) None None),
      (''port'', Option (Scalar (SInt 0)) (Some valid_port) None None),
      (''unix'', Option (Scalar (SStr '''')) (Some valid_abs_path) (Some ''!port'') (Some ''unix_path'')),
      (''timeout'', Option (Scalar (SFloat ''2.0'')) (Some valid_float_f01) None None),
      (''cmd'', Option (List [Scalar (SStr ''/bin/true'')]) (Some valid_command) None None)]"

definition scheme_kvmd :: scheme where
  "scheme_kvmd =
     [(''server'', Section scheme_kvmd_server),
      (''auth'', Section scheme_kvmd_auth),
      (''info'', Section scheme_kvmd_info),
      (''hid'', Section scheme_kvmd_hid),
      (''atx'', Section scheme_kvmd_atx),
      (''msd'', Section scheme_kvmd_msd),
      (''streamer'', Section scheme_kvmd_streamer)]"

definition scheme_ipmi_server :: scheme where
  "scheme_ipmi_server =
     [(''host'', Option (Scalar (SStr ''::'')) (Some valid_ip_or_host) None None),
      (''port'', Option (Scalar (SInt 623)) (Some valid_port) None None),
      (''timeout'', Option (Scalar (SFloat ''10.0'')) (Some valid_float_f01) None None)]"

definition scheme_ipmi_kvmd :: scheme where
  "scheme_ipmi_kvmd =
     [(''host'', Option (Scalar (SStr ''localhost'')) (Some valid_ip_or_host) None (Some ''kvmd_host'')),
      (''port'', Option (Scalar (SInt 0)) (Some valid_port) None (Some ''kvmd_port'')),
      (''unix'', Option (Scalar (SStr '''')) (Some valid_abs_path) (Some ''!port'') (Some ''kvmd_unix_path'')),
      (''timeout'', Option (Scalar (SFloat ''5.0'')) (Some valid_float_f01) None (Some ''kvmd_timeout''))]"

definition scheme_ipmi_auth :: scheme where
  "scheme_ipmi_auth =
     [(''file'', Option (Scalar (SStr ''/etc/kvmd/ipmipasswd'')) (Some valid_abs_path_exists) None (Some ''path''))]"

definition scheme_ipmi :: scheme where
  "scheme_ipmi =
     [(''server'', Section scheme_ipmi_server),
      (''kvmd'', Section scheme_ipmi_kvmd),
      (''auth'', Section scheme_ipmi_auth)]"

definition full_scheme :: scheme where
  "full_scheme =
     [(''logging'', Option (Dict []) None None None),
      (''kvmd'', Section scheme_kvmd),
      (''ipmi'', Section scheme_ipmi)]"


text \<open>
  \<^verbatim>\<open>
  if sections:
      return {section: sub for (section, sub) in scheme.items() if section in sections}
  else:
      return scheme
  \<close>
  A list is true when it is not empty; the comprehension keeps the order of the
  literal.
\<close>

definition get_config_scheme :: "string list \<Rightarrow> scheme" where
  "get_config_scheme sections =
     (if sections \<noteq> []
      then filter (\<lambda>(section, sub). section \<in> set sections) full_scheme
      else full_scheme)"

section \<open>Plugins\<close>

subsection \<open>\<^verbatim>\<open>BasePlugin\<close>\<close>

text \<open>
  A plugin type is a class deriving from \<^verbatim>\<open>BasePlugin\<close>. Of a class the model keeps
  the name of the module that defines it (\<^verbatim>\<open>cls.__module__\<close>) and the options its
  own \<^verbatim>\<open>get_plugin_options\<close> returns when it overrides the method of the base
  (\<open>None\<close> when it does not).
\<close>

record plugin_class =
  cls_module :: string
  cls_options :: "scheme option"

text \<open>\<^verbatim>\<open>BasePlugin\<close> itself is defined in the module \<^verbatim>\<open>kvmd.plugins\<close>.\<close>

definition BasePlugin :: plugin_class where
  "BasePlugin = \<lparr>cls_module = ''kvmd.plugins'', cls_options = None\<rparr>"

text \<open>
  \<^verbatim>\<open>str.rindex(sub)\<close> for a one-character \<^verbatim>\<open>sub\<close>: the highest index at which the
  character stands, \<^verbatim>\<open>ValueError\<close> when it stands nowhere. The scan goes from the
  left and remembers the last index found.
\<close>

fun rindex_from :: "string \<Rightarrow> char \<Rightarrow> nat \<Rightarrow> nat option \<Rightarrow> nat option" where
  "rindex_from [] c i found = found"
| "rindex_from (x # xs) c i found = rindex_from xs c (Suc i) (if x = c then Some i else found)"

definition rindex :: "string \<Rightarrow> char \<Rightarrow> exn + nat" where
  "rindex s c =
     (case rindex_from s c 0 None of
        None \<Rightarrow> Inl (ValueError ''substring not found'')
      | Some i \<Rightarrow> Inr i)"

text \<open>
  \<^verbatim>\<open>
  @classmethod
  def get_plugin_name(cls) -> str:
      name = cls.__module__
      return name[name.rindex(".") + 1:]
  \<close>
\<close>

definition get_plugin_name :: "plugin_class \<Rightarrow> exn + string" where
  "get_plugin_name cls =
     (let name = cls_module cls in
      case rindex name (CHR ''.'') of
        Inl e \<Rightarrow> Inl e
      | Inr i \<Rightarrow> Inr (drop (i + 1) name))"

text \<open>
  \<^verbatim>\<open>
  @classmethod
  def get_plugin_options(cls) -> Dict[str, Option]:
      return {}
  \<close>
  \<open>BasePlugin_get_plugin_options\<close> is the body of the base's method; calling
  \<^verbatim>\<open>cls.get_plugin_options()\<close> runs the class's own method when it has one and the
  base's otherwise.
\<close>

definition BasePlugin_get_plugin_options :: scheme where
  "BasePlugin_get_plugin_options = []"

definition get_plugin_options :: "plugin_class \<Rightarrow> scheme" where
  "get_plugin_options cls =
     (case cls_options cls of
        None \<Rightarrow> BasePlugin_get_plugin_options
      | Some own \<Rightarrow> own)"

subsection \<open>\<^verbatim>\<open>get_plugin_class\<close>\<close>

text \<open>
  A module is the dictionary of its attributes. \<^verbatim>\<open>importlib.import_module\<close> belongs
  to the environment and is a parameter: it returns the module or raises
  (\<^verbatim>\<open>ModuleNotFoundError\<close> or anything else). \<^verbatim>\<open>getattr(module, name)\<close> raises
  \<^verbatim>\<open>AttributeError\<close> when the module has no such attribute.
\<close>

type_synonym 'c pymodule = "(string \<times> 'c) list"

type_synonym 'c importer = "string \<Rightarrow> exn + 'c pymodule"

definition getattr :: "'c pymodule \<Rightarrow> string \<Rightarrow> exn + 'c" where
  "getattr module name =
     (case dict_get module name of
        None \<Rightarrow> Inl (AttributeError name)
      | Some v \<Rightarrow> Inr v)"

text \<open>The two format strings of the source, on strings.\<close>

definition plugin_module_name :: "string \<Rightarrow> string \<Rightarrow> string" where
  "plugin_module_name sub name = ''kvmd.plugins.'' @ sub @ ''.'' @ name"

definition unknown_plugin_message :: "string \<Rightarrow> string \<Rightarrow> string" where
  "unknown_plugin_message sub name =
     ''Unknown plugin '' @ [CHR 0x27] @ sub @ ''/'' @ name @ [CHR 0x27]"

text \<open>
  \<^verbatim>\<open>
  def get_plugin_class(sub: str, name: str) -> Type[BasePlugin]:
      try:
          module = importlib.import_module("kvmd.plugins.{}.{}".format(sub, name))
      except ModuleNotFoundError:
          raise UnknownPluginError("Unknown plugin '%s/%s'" % (sub, name))
      return getattr(module, "Plugin")
  \<close>
  The function under the decorator. Only \<^verbatim>\<open>ModuleNotFoundError\<close> is caught; the
  \<^verbatim>\<open>getattr\<close> stands after the \<^verbatim>\<open>try\<close> statement.
\<close>

definition get_plugin_class :: "'c importer \<Rightarrow> string \<Rightarrow> string \<Rightarrow> exn + 'c" where
  "get_plugin_class import_module sub name =
     (case import_module (plugin_module_name sub name) of
        Inl (ModuleNotFoundError _) \<Rightarrow> Inl (UnknownPluginError (unknown_plugin_message sub name))
      | Inl e \<Rightarrow> Inl e
      | Inr module \<Rightarrow> getattr module ''Plugin'')"

text \<open>
  \<^verbatim>\<open>@functools.lru_cache()\<close>: the cache of the decorated function, keyed by the
  arguments, most recently used entry first, at most \<open>lru_maxsize\<close> entries (the
  decorator's default). A hit returns the stored value and moves the entry to the
  front. A miss calls the function: an exception passes through and stores nothing; a
  value is stored at the front, the least recently used entry leaving a full cache.
\<close>

type_synonym 'c lru_cache = "((string \<times> string) \<times> 'c) list"

definition lru_maxsize :: nat where
  "lru_maxsize = 128"

definition get_plugin_class_cached ::
  "'c importer \<Rightarrow> 'c lru_cache \<Rightarrow> string \<Rightarrow> string \<Rightarrow> (exn + 'c) \<times> 'c lru_cache" where
  "get_plugin_class_cached import_module cache sub name =
     (case map_of cache (sub, name) of
        Some cls \<Rightarrow> (Inr cls, ((sub, name), cls) # filter (\<lambda>e. fst e \<noteq> (sub, name)) cache)
      | None \<Rightarrow>
          (case get_plugin_class import_module sub name of
             Inl e \<Rightarrow> (Inl e, cache)
           | Inr cls \<Rightarrow>
               (Inr cls,
                ((sub, name), cls) # (if length cache \<ge> lru_maxsize then butlast cache else cache))))"

text \<open>
  A cache agrees with an environment when every entry is what the function under the
  decorator returns there. The empty cache of a starting process agrees with every
  environment.
\<close>

definition cache_agrees :: "'c importer \<Rightarrow> 'c lru_cache \<Rightarrow> bool" where
  "cache_agrees import_module cache =
     list_all (\<lambda>(k, cls). get_plugin_class import_module (fst k) (snd k) = Inr cls) cache"

text \<open>A run of calls through the cache, returning the results in order.\<close>

fun run_calls ::
  "'c importer \<Rightarrow> 'c lru_cache \<Rightarrow> (string \<times> string) list \<Rightarrow> (exn + 'c) list \<times> 'c lru_cache" where
  "run_calls import_module cache [] = ([], cache)"
| "run_calls import_module cache ((sub, name) # calls) =
     (case get_plugin_class_cached import_module cache sub name of
        (r, cache') \<Rightarrow>
          (case run_calls import_module cache' calls of
             (rs, cache'') \<Rightarrow> (r # rs, cache'')))"

section \<open>\<^verbatim>\<open>_init_config\<close>\<close>

text \<open>
  What \<^verbatim>\<open>_init_config\<close> calls and the source files do not define is a parameter:
  \<^verbatim>\<open>os.path.expanduser\<close>, \<^verbatim>\<open>load_yaml_file\<close>, \<^verbatim>\<open>build_raw_from_options\<close>,
  \<^verbatim>\<open>make_config\<close> and \<^verbatim>\<open>get_auth_service_class\<close>, each returning a value or raising.
  The resolved configuration is of an open type \<open>'cfg\<close>; \<open>internal_type\<close> and
  \<open>external_type\<close> read \<^verbatim>\<open>config.kvmd.auth.internal_type\<close> and
  \<^verbatim>\<open>config.kvmd.auth.external_type\<close>, which the scheme declares as strings. The
  collaborators are functions: a call changes none of its arguments.
\<close>

record ('a, 'cfg) collaborators =
  expanduser :: "string \<Rightarrow> string"
  load_yaml_file :: "string \<Rightarrow> exn + 'a dict"
  build_raw_from_options :: "string list \<Rightarrow> exn + 'a dict"
  make_config :: "'a dict \<Rightarrow> scheme \<Rightarrow> exn + 'cfg"
  internal_type :: "'cfg \<Rightarrow> string"
  external_type :: "'cfg \<Rightarrow> string"
  get_auth_service_class :: "string \<Rightarrow> exn + plugin_class"

text \<open>
  \<^verbatim>\<open>scheme[k1][k2][k3] = v\<close>: the two subscriptions raise \<^verbatim>\<open>KeyError\<close> on a missing
  key and \<^verbatim>\<open>TypeError\<close> on an \<^verbatim>\<open>Option\<close> object; the assignment stores into the
  innermost dictionary.
\<close>

definition scheme_set3 :: "scheme \<Rightarrow> string \<Rightarrow> string \<Rightarrow> string \<Rightarrow> node \<Rightarrow> exn + scheme" where
  "scheme_set3 scheme k1 k2 k3 v =
     (case dict_get scheme k1 of
        None \<Rightarrow> Inl (KeyError k1)
      | Some (Option _ _ _ _) \<Rightarrow> Inl (TypeError k1)
      | Some (Section s1) \<Rightarrow>
          (case dict_get s1 k2 of
             None \<Rightarrow> Inl (KeyError k2)
           | Some (Option _ _ _ _) \<Rightarrow> Inl (TypeError k2)
           | Some (Section s2) \<Rightarrow>
               Inr (dict_set k1 (Section (dict_set k2 (Section (dict_set k3 v s2)) s1)) scheme)))"

text \<open>
  \<^verbatim>\<open>
  scheme["kvmd"]["auth"]["internal"] = get_auth_service_class(config.kvmd.auth.internal_type).get_plugin_options()
  if config.kvmd.auth.external_type:
      scheme["kvmd"]["auth"]["external"] = get_auth_service_class(config.kvmd.auth.external_type).get_plugin_options()
  \<close>
  The right-hand side of an assignment is evaluated before its target. A string is
  true when it is not empty.
\<close>

definition extend_scheme :: "('a, 'cfg) collaborators \<Rightarrow> 'cfg \<Rightarrow> scheme \<Rightarrow> exn + scheme" where
  "extend_scheme w config scheme =
     (case get_auth_service_class w (internal_type w config) of
        Inl e \<Rightarrow> Inl e
      | Inr internal_cls \<Rightarrow>
          (case scheme_set3 scheme ''kvmd'' ''auth'' ''internal''
                  (Section (get_plugin_options internal_cls)) of
             Inl e \<Rightarrow> Inl e
           | Inr scheme1 \<Rightarrow>
               if external_type w config \<noteq> []
               then
                 (case get_auth_service_class w (external_type w config) of
                    Inl e \<Rightarrow> Inl e
                  | Inr external_cls \<Rightarrow>
                      scheme_set3 scheme1 ''kvmd'' ''auth'' ''external''
                        (Section (get_plugin_options external_cls)))
               else Inr scheme1))"

text \<open>
  The body of the \<^verbatim>\<open>try\<close> statement:
  \<^verbatim>\<open>
  _merge_dicts(raw_config, build_raw_from_options(override_options))
  config = make_config(raw_config, scheme)
  if "kvmd" in sections:
      ...
      config = make_config(raw_config, scheme)
  return config
  \<close>
  The raw mapping \<^verbatim>\<open>load_yaml_file\<close> returned is taken as a tree here, and what
  \<^verbatim>\<open>raw_config\<close> holds after \<^verbatim>\<open>_merge_dicts\<close> is then \<open>merge_trees raw_config overrides\<close>
  (lemma \<open>merge_dicts_refines\<close> below): both passes read that.
\<close>

definition init_config_body ::
  "('a, 'cfg) collaborators \<Rightarrow> 'a dict \<Rightarrow> scheme \<Rightarrow> string list \<Rightarrow> string list \<Rightarrow> exn + 'cfg" where
  "init_config_body w raw_config scheme sections override_options =
     (case build_raw_from_options w override_options of
        Inl e \<Rightarrow> Inl e
      | Inr overrides \<Rightarrow>
          (let merged = merge_trees raw_config overrides in
           case make_config w merged scheme of
             Inl e \<Rightarrow> Inl e
           | Inr config \<Rightarrow>
               if ''kvmd'' \<in> set sections
               then
                 (case extend_scheme w config scheme of
                    Inl e \<Rightarrow> Inl e
                  | Inr scheme2 \<Rightarrow> make_config w merged scheme2)
               else Inr config))"

text \<open>
  \<^verbatim>\<open>
  except (ConfigError, UnknownPluginError) as err:
      raise SystemExit("Config error: %s" % (str(err)))
  \<close>
  Any other exception passes through.
\<close>

definition except_config_error :: "exn + 'cfg \<Rightarrow> exn + 'cfg" where
  "except_config_error r =
     (case r of
        Inl (ConfigError msg) \<Rightarrow> Inl (SystemExit (''Config error: '' @ msg))
      | Inl (UnknownPluginError msg) \<Rightarrow> Inl (SystemExit (''Config error: '' @ msg))
      | _ \<Rightarrow> r)"

text \<open>
  \<^verbatim>\<open>
  def _init_config(config_path, sections, override_options) -> Section:
      config_path = os.path.expanduser(config_path)
      raw_config: Dict = load_yaml_file(config_path)
      scheme = _get_config_scheme(sections)
      try: ...
      except (ConfigError, UnknownPluginError) as err: ...
  \<close>
  The file is loaded before the \<^verbatim>\<open>try\<close> statement.
\<close>

definition init_config ::
  "('a, 'cfg) collaborators \<Rightarrow> string \<Rightarrow> string list \<Rightarrow> string list \<Rightarrow> exn + 'cfg" where
  "init_config w config_path sections override_options =
     (case load_yaml_file w (expanduser w config_path) of
        Inl e \<Rightarrow> Inl e
      | Inr raw_config \<Rightarrow>
          except_config_error
            (init_config_body w raw_config (get_config_scheme sections) sections override_options))"

section \<open>The Config Resolver\<close>

text \<open>
  \<^verbatim>\<open>make_config\<close> is imported from \<^verbatim>\<open>kvmd.yamlconf\<close>, which is not among the source
  files. The definitions of this section follow section 4.2 of the specification.
  The validator library and the truth test of a resolved value belong to the
  environment and are parameters: \<open>validate ty v\<close> runs the validator \<open>ty\<close> of an
  option on the raw value \<open>v\<close> and returns the typed value or the message of its
  failure.
\<close>

type_synonym validate = "validator option \<Rightarrow> scalar raw \<Rightarrow> string + scalar raw"

type_synonym leaf_failure = "string list \<times> string"

text \<open>
  Modelled from the spec: the Resolved Section, the output of the Config Resolver
  (the \<^verbatim>\<open>Section\<close> class of \<^verbatim>\<open>kvmd.yamlconf\<close>, which is not among the source
  files). A mapping from names to values or nested resolved sections; \<open>Disabled\<close> is
  the marker an option takes when its \<^verbatim>\<open>only_if\<close> predicate is false.
\<close>

datatype resolved =
    Value "scalar raw"
  | Disabled
  | Resolved "(string \<times> resolved) list"

text \<open>
  Modelled from the spec: step 1 of the Config Resolver (\<^verbatim>\<open>make_config\<close>, missing
  from the source files), the raw value of an option: the value at this key of the raw
  mapping when there is one, else the default.
\<close>

definition raw_or_default :: "scalar dict \<Rightarrow> string \<Rightarrow> scalar raw \<Rightarrow> scalar raw" where
  "raw_or_default r k d = (case dict_get r k of Some v \<Rightarrow> v | None \<Rightarrow> d)"

text \<open>
  Modelled from the spec: step 4 of the Config Resolver (\<^verbatim>\<open>make_config\<close>, missing
  from the source files), the raw mapping of a child section: the sub-mapping at its
  key, the empty mapping when it is absent. The specification does not say what a
  value that is not a mapping gives; here it gives the empty mapping too.
\<close>

definition sub_mapping :: "scalar dict \<Rightarrow> string \<Rightarrow> scalar dict" where
  "sub_mapping r k = (case dict_get r k of Some (Dict d) \<Rightarrow> d | _ \<Rightarrow> [])"

text \<open>
  Modelled from the spec: the first sub-pass of the Config Resolver (\<^verbatim>\<open>make_config\<close>,
  missing from the source files) within a section: the options without \<^verbatim>\<open>only_if\<close>,
  with the values their validators return. These are the resolved siblings a predicate
  can look up.
\<close>

definition first_subpass :: "validate \<Rightarrow> scalar dict \<Rightarrow> scheme \<Rightarrow> (string \<times> scalar raw) list" where
  "first_subpass validate r sch =
     List.map_filter
       (\<lambda>(k, n).
          case n of
            Option d ty None ub \<Rightarrow>
              (case validate ty (raw_or_default r k d) of
                 Inr v \<Rightarrow> Some (k, v)
               | Inl m \<Rightarrow> None)
          | _ \<Rightarrow> None)
       sch"

text \<open>
  Modelled from the spec: the \<^verbatim>\<open>only_if\<close> predicate of the Option data model (the
  \<^verbatim>\<open>Option\<close> class of \<^verbatim>\<open>kvmd.yamlconf\<close> is missing from the source files): the name
  of a sibling, negated by a leading \<^verbatim>\<open>!\<close>. The option is validated only when the
  sibling resolves true (false, when negated); a sibling that did not resolve makes
  the predicate false.
\<close>

definition only_if_holds ::
  "(scalar raw \<Rightarrow> bool) \<Rightarrow> (string \<times> scalar raw) list \<Rightarrow> string \<Rightarrow> bool" where
  "only_if_holds truthy siblings p =
     (if p \<noteq> [] \<and> hd p = CHR ''!''
      then (case dict_get siblings (tl p) of Some v \<Rightarrow> \<not> truthy v | None \<Rightarrow> False)
      else (case dict_get siblings p of Some v \<Rightarrow> truthy v | None \<Rightarrow> False))"

text \<open>
  Modelled from the spec: step 2 of the Config Resolver (\<^verbatim>\<open>make_config\<close>, missing
  from the source files): an option without \<^verbatim>\<open>only_if\<close> is always validated, one
  with \<^verbatim>\<open>only_if\<close> when its predicate holds.
\<close>

definition option_active ::
  "(scalar raw \<Rightarrow> bool) \<Rightarrow> (string \<times> scalar raw) list \<Rightarrow> string option \<Rightarrow> bool" where
  "option_active truthy siblings only_if =
     (case only_if of None \<Rightarrow> True | Some p \<Rightarrow> only_if_holds truthy siblings p)"

text \<open>
  Modelled from the spec: steps 1 to 4 of the Config Resolver (\<^verbatim>\<open>make_config\<close>,
  missing from the source files) over the children of one section, \<open>path\<close> being the
  path of the section. An option whose predicate is false
  takes the marker and its validator is not run; a validator that fails records
  \<open>(path, message)\<close> and the walk goes on; a child section is resolved against its
  sub-mapping. The result is the failures recorded below this section and the
  resolved children, both in the order of the scheme.
\<close>

fun resolve_entries ::
  "validate \<Rightarrow> (scalar raw \<Rightarrow> bool) \<Rightarrow> string list \<Rightarrow> scalar dict \<Rightarrow>
   (string \<times> scalar raw) list \<Rightarrow> scheme \<Rightarrow> leaf_failure list \<times> (string \<times> resolved) list" where
  "resolve_entries validate truthy path r siblings [] = ([], [])"
| "resolve_entries validate truthy path r siblings ((k, Option d ty only_if ub) # rest) =
     (case resolve_entries validate truthy path r siblings rest of
        (errs, out) \<Rightarrow>
          if option_active truthy siblings only_if
          then
            (case validate ty (raw_or_default r k d) of
               Inl m \<Rightarrow> ((path @ [k], m) # errs, out)
             | Inr v \<Rightarrow> (errs, (k, Value v) # out))
          else (errs, (k, Disabled) # out))"
| "resolve_entries validate truthy path r siblings ((k, Section s) # rest) =
     (case resolve_entries validate truthy (path @ [k]) (sub_mapping r k)
             (first_subpass validate (sub_mapping r k) s) s of
        (errs1, out1) \<Rightarrow>
          (case resolve_entries validate truthy path r siblings rest of
             (errs2, out2) \<Rightarrow> (errs1 @ errs2, (k, Resolved out1) # out2)))"

text \<open>
  Modelled from the spec: the contract of the Config Resolver (\<^verbatim>\<open>make_config\<close>,
  missing from the source files), \<^verbatim>\<open>resolve(raw, schema) -> Resolved Section\<close>, step 5: when a failure was recorded
  anywhere in the tree the pass fails with one \<^verbatim>\<open>ConfigError\<close> holding all the
  collected pairs (\<open>Inl\<close>), otherwise it returns the assembled section.
\<close>

definition resolve ::
  "validate \<Rightarrow> (scalar raw \<Rightarrow> bool) \<Rightarrow> scalar dict \<Rightarrow> scheme \<Rightarrow> leaf_failure list + resolved" where
  "resolve validate truthy raw schema =
     (case resolve_entries validate truthy [] raw (first_subpass validate raw schema) schema of
        (errs, out) \<Rightarrow> if errs = [] then Inr (Resolved out) else Inl errs)"

text \<open>
  Modelled from the spec: an invalid leaf of a raw document, said without the walk of
  the resolver: the option at the end of \<open>path\<close> is validated (its predicate holds or
  it has none) and its validator fails with the message on the raw value found by
  following \<open>path\<close> through the raw mapping.
\<close>

inductive leaf_fails ::
  "validate \<Rightarrow> (scalar raw \<Rightarrow> bool) \<Rightarrow> scalar dict \<Rightarrow> scheme \<Rightarrow> string list \<Rightarrow> string \<Rightarrow> bool"
  for validate :: validate and truthy :: "scalar raw \<Rightarrow> bool" where
  option_fails:
    "(k, Option d ty only_if ub) \<in> set sch \<Longrightarrow>
     option_active truthy (first_subpass validate r sch) only_if \<Longrightarrow>
     validate ty (raw_or_default r k d) = Inl m \<Longrightarrow>
     leaf_fails validate truthy r sch [k] m"
| section_fails:
    "(k, Section s) \<in> set sch \<Longrightarrow>
     leaf_fails validate truthy (sub_mapping r k) s p m \<Longrightarrow>
     leaf_fails validate truthy r sch (k # p) m"

text \<open>
  The failures below one child of a section, as a set: those of an option that is
  validated and whose validator fails, and those of the invalid leaves of a child
  section, each under \<open>path\<close>.
\<close>

definition entry_failures ::
  "validate \<Rightarrow> (scalar raw \<Rightarrow> bool) \<Rightarrow> string list \<Rightarrow> scalar dict \<Rightarrow>
   (string \<times> scalar raw) list \<Rightarrow> string \<times> node \<Rightarrow> leaf_failure set" where
  "entry_failures validate truthy path r siblings e =
     (case e of
        (k, Option d ty only_if ub) \<Rightarrow>
          {(p, m). option_active truthy siblings only_if \<and>
                   validate ty (raw_or_default r k d) = Inl m \<and> p = path @ [k]}
      | (k, Section s) \<Rightarrow>
          {(p, m). \<exists>q. leaf_fails validate truthy (sub_mapping r k) s q m \<and> p = path @ k # q})"

text \<open>
  Modelled from the spec: the message of the aggregate \<^verbatim>\<open>ConfigError\<close> (raised by
  \<^verbatim>\<open>make_config\<close>, missing from the source files): the collected pairs joined, each
  failure with its dotted path.
\<close>

fun join :: "string \<Rightarrow> string list \<Rightarrow> string" where
  "join sep [] = []"
| "join sep [x] = x"
| "join sep (x # y # ys) = x @ sep @ join sep (y # ys)"

definition config_error_message :: "leaf_failure list \<Rightarrow> string" where
  "config_error_message errs = join ''; '' (map (\<lambda>(p, m). join ''.'' p @ '': '' @ m) errs)"

section \<open>Reading schemes and resolved sections by path\<close>

text \<open>The node of a scheme at a path of keys, \<open>None\<close> when the path leaves the scheme.\<close>

fun scheme_lookup :: "scheme \<Rightarrow> string list \<Rightarrow> node option" where
  "scheme_lookup sch [] = None"
| "scheme_lookup sch [k] = dict_get sch k"
| "scheme_lookup sch (k # ks) =
     (case dict_get sch k of Some (Section s) \<Rightarrow> scheme_lookup s ks | _ \<Rightarrow> None)"

text \<open>The same for a resolved section: \<^verbatim>\<open>config.a.b.c\<close>.\<close>

fun resolved_lookup :: "resolved \<Rightarrow> string list \<Rightarrow> resolved option" where
  "resolved_lookup c [] = Some c"
| "resolved_lookup (Resolved entries) (k # ks) =
     (case dict_get entries k of Some c \<Rightarrow> resolved_lookup c ks | None \<Rightarrow> None)"
| "resolved_lookup c (k # ks) = None"

definition resolved_string :: "resolved \<Rightarrow> string list \<Rightarrow> string" where
  "resolved_string c path =
     (case resolved_lookup c path of Some (Value (Scalar (SStr s))) \<Rightarrow> s | _ \<Rightarrow> [])"

section \<open>An example environment\<close>

text \<open>
  A concrete environment on which the statements below are run: three importable
  modules under \<^verbatim>\<open>kvmd.plugins.auth\<close> (two plugins, and the package's own
  \<^verbatim>\<open>__init__\<close>, which exports no \<^verbatim>\<open>Plugin\<close>), a validator library that knows ports,
  booleans and a fixed set of existing files, and a configuration file.
\<close>

definition htpasswd_plugin :: plugin_class where
  "htpasswd_plugin =
     \<lparr>cls_module = ''kvmd.plugins.auth.htpasswd'',
      cls_options = Some [(''file'', Option (Scalar (SStr ''/etc/kvmd/htpasswd''))
                             (Some valid_abs_path_exists) None (Some ''path''))]\<rparr>"

definition pam_plugin :: plugin_class where
  "pam_plugin = \<lparr>cls_module = ''kvmd.plugins.auth.pam'', cls_options = None\<rparr>"

definition example_import :: "plugin_class importer" where
  "example_import name =
     (if name = ''kvmd.plugins.auth.htpasswd'' then Inr [(''Plugin'', htpasswd_plugin)]
      else if name = ''kvmd.plugins.auth.pam'' then Inr [(''Plugin'', pam_plugin)]
      else if name = ''kvmd.plugins.auth.__init__''
      then Inr [(''BaseAuthService'', \<lparr>cls_module = ''kvmd.plugins.auth'', cls_options = None\<rparr>)]
      else Inl (ModuleNotFoundError name))"

definition example_files :: "string list" where
  "example_files =
     [''/etc/kvmd/main.yaml'', ''/etc/kvmd/meta.yaml'', ''/usr/share/kvmd/extras'',
      ''/etc/kvmd/htpasswd'', ''/etc/kvmd/ipmipasswd'']"

definition example_validate :: validate where
  "example_validate ty v =
     (case ty of
        Some valid_port \<Rightarrow>
          (case v of
             Scalar (SInt n) \<Rightarrow> if 0 \<le> n \<and> n \<le> 65535 then Inr v else Inl ''not a port''
           | _ \<Rightarrow> Inl ''not a port'')
      | Some valid_bool \<Rightarrow>
          (case v of Scalar (SBool b) \<Rightarrow> Inr v | _ \<Rightarrow> Inl ''not a boolean'')
      | Some valid_abs_path_exists \<Rightarrow>
          (case v of
             Scalar (SStr p) \<Rightarrow> if p \<in> set example_files then Inr v else Inl ''no such file''
           | _ \<Rightarrow> Inl ''not a path'')
      | _ \<Rightarrow> Inr v)"

fun example_truthy :: "scalar raw \<Rightarrow> bool" where
  "example_truthy (Scalar (SStr s)) = (s \<noteq> [])"
| "example_truthy (Scalar (SInt n)) = (n \<noteq> 0)"
| "example_truthy (Scalar (SFloat f)) = (f \<noteq> ''0.0'')"
| "example_truthy (Scalar (SBool b)) = b"
| "example_truthy (List xs) = (xs \<noteq> [])"
| "example_truthy (Dict d) = (d \<noteq> [])"

definition example_make_config :: "scalar dict \<Rightarrow> scheme \<Rightarrow> exn + resolved" where
  "example_make_config raw sch =
     (case resolve example_validate example_truthy raw sch of
        Inl errs \<Rightarrow> Inl (ConfigError (config_error_message errs))
      | Inr c \<Rightarrow> Inr c)"

definition example_overrides :: "string list \<Rightarrow> exn + scalar dict" where
  "example_overrides tokens =
     (if tokens = [] then Inr []
      else if tokens = [''kvmd/auth/internal_type=nosuch'']
      then Inr [(''kvmd'', Dict [(''auth'', Dict [(''internal_type'', Scalar (SStr ''nosuch''))])])]
      else if tokens = [''kvmd/auth/internal_type=__init__'']
      then Inr [(''kvmd'', Dict [(''auth'', Dict [(''internal_type'', Scalar (SStr ''__init__''))])])]
      else if tokens = [''kvmd/auth/internal_type='']
      then Inr [(''kvmd'', Dict [(''auth'', Dict [(''internal_type'', Scalar (SStr []))])])]
      else if tokens = [''kvmd/auth/external_type=ldap'']
      then Inr [(''kvmd'', Dict [(''auth'', Dict [(''external_type'', Scalar (SStr ''ldap''))])])]
      else if tokens = [''kvmd/auth/external_type='']
      then Inr [(''kvmd'', Dict [(''auth'', Dict [(''external_type'', Scalar (SStr []))])])]
      else if tokens = [''kvmd/auth/internal/file=/nonexistent'']
      then Inr [(''kvmd'', Dict [(''auth'', Dict [(''internal'',
                  Dict [(''file'', Scalar (SStr ''/nonexistent''))])])])]
      else if tokens = [''kvmd/server/port=70000'']
      then Inr [(''kvmd'', Dict [(''server'', Dict [(''port'', Scalar (SInt 70000))])])]
      else Inl (ConfigError ''No value for key''))"

text \<open>The content of the example's configuration file.\<close>

definition example_merged :: "scalar dict" where
  "example_merged =
     [(''kvmd'', Dict [(''auth'', Dict [(''external_type'', Scalar (SStr ''pam''))]),
                      (''server'', Dict [(''port'', Scalar (SInt 8081))])])]"

definition example_world :: "(scalar, resolved) collaborators" where
  "example_world =
     \<lparr>expanduser = (\<lambda>p. p),
      load_yaml_file =
        (\<lambda>p. if p = ''/etc/kvmd/main.yaml'' then Inr example_merged
              else Inl (OtherError ''FileNotFoundError'')),
      build_raw_from_options = example_overrides,
      make_config = example_make_config,
      internal_type = (\<lambda>c. resolved_string c [''kvmd'', ''auth'', ''internal_type'']),
      external_type = (\<lambda>c. resolved_string c [''kvmd'', ''auth'', ''external_type'']),
      get_auth_service_class = get_plugin_class example_import ''auth''\<rparr>"

text \<open>
  Two more environments for the cache: one in which every module imports and exports
  a \<^verbatim>\<open>Plugin\<close> class of its own, and one in which no module is found. \<open>other_pairs n\<close>
  are \<open>n\<close> pairs of the subsystem \<^verbatim>\<open>hid\<close> with the names \<^verbatim>\<open>x\<close>, \<^verbatim>\<open>xx\<close>, \<^verbatim>\<open>xxx\<close> and so
  on.
\<close>

definition import_anything :: "plugin_class importer" where
  "import_anything name = Inr [(''Plugin'', \<lparr>cls_module = name, cls_options = None\<rparr>)]"

definition import_nothing :: "plugin_class importer" where
  "import_nothing name = Inl (ModuleNotFoundError name)"

definition other_pairs :: "nat \<Rightarrow> (string \<times> string) list" where
  "other_pairs n = map (\<lambda>i. (''hid'', replicate (Suc i) (CHR ''x''))) [0..<n]"

text \<open>A resolved configuration that holds the two selectors and nothing else.\<close>

definition example_selectors :: "string \<Rightarrow> string \<Rightarrow> resolved" where
  "example_selectors internal external =
     Resolved [(''kvmd'', Resolved [(''auth'', Resolved
       [(''internal_type'', Value (Scalar (SStr internal))),
        (''external_type'', Value (Scalar (SStr external)))])])]"

text \<open>
  Stores for the merge. The base of the specification's example,
  \<^verbatim>\<open>{"a": {"x": 1, "y": 2}}\<close>, with the outer dictionary at address 0 and the inner one
  at address 1.
\<close>

definition spec_heap :: "int heap" where
  "spec_heap a =
     (if a = 0 then [(''a'', Ref 1)]
      else if a = 1 then [(''x'', Val (Scalar 1)), (''y'', Val (Scalar 2))]
      else [])"

text \<open>
  A base with two dictionary objects, a list and a scalar, each object referred to
  once; the same document written as a tree; and an override that touches the
  dictionary \<^verbatim>\<open>a\<close>, the list and the scalar and adds a key.
\<close>

definition tree_heap :: "int heap" where
  "tree_heap a =
     (if a = 0 then [(''a'', Ref 1), (''l'', Val (List [Scalar 1, Scalar 2])),
                     (''s'', Val (Scalar 5)), (''b'', Ref 2)]
      else if a = 1 then [(''x'', Val (Scalar 1)), (''y'', Val (Scalar 2))]
      else if a = 2 then [(''x'', Val (Scalar 1))]
      else [])"

definition tree_doc :: "int dict" where
  "tree_doc = [(''a'', Dict [(''x'', Scalar 1), (''y'', Scalar 2)]),
               (''l'', List [Scalar 1, Scalar 2]), (''s'', Scalar 5),
               (''b'', Dict [(''x'', Scalar 1)])]"

definition tree_src :: "int dict" where
  "tree_src = [(''a'', Dict [(''x'', Scalar 9)]), (''l'', List [Scalar 3]),
               (''s'', Dict [(''z'', Scalar 0)]), (''n'', Scalar 7)]"

text \<open>
  The base a YAML file with an alias gives, \<^verbatim>\<open>{a: &s {x: 1}, b: *s}\<close>: the keys
  \<^verbatim>\<open>a\<close> and \<^verbatim>\<open>b\<close> of the dictionary at address 0 refer to the one object at address 1.
\<close>

definition aliased_heap :: "int heap" where
  "aliased_heap a =
     (if a = 0 then [(''a'', Ref 1), (''b'', Ref 1)]
      else if a = 1 then [(''x'', Val (Scalar 1))]
      else [])"

text \<open>A document with two invalid ports.\<close>

definition example_invalid :: "scalar dict" where
  "example_invalid =
     [(''ipmi'', Dict [(''server'', Dict [(''port'', Scalar (SInt 70000))]),
                      (''kvmd'', Dict [(''port'', Scalar (SInt (- 1)))])])]"

text \<open>What a run returned at a path of the resolved configuration, or the exception it raised.\<close>

definition returned_at :: "exn + resolved \<Rightarrow> string list \<Rightarrow> exn + resolved option" where
  "returned_at r path = (case r of Inl e \<Rightarrow> Inl e | Inr c \<Rightarrow> Inr (resolved_lookup c path))"

section \<open>Notions the statements use\<close>

text \<open>
  The fragment a scheme holds at a slot: the options of the section there, the empty
  fragment when the slot has no entry.
\<close>

definition slot_fragment :: "scheme \<Rightarrow> string list \<Rightarrow> scheme" where
  "slot_fragment sch path = (case scheme_lookup sch path of Some (Section s) \<Rightarrow> s | _ \<Rightarrow> [])"

text \<open>
  \<open>auth_replaced base S auth'\<close>: the scheme \<open>S\<close> is \<open>base\<close> with the section at
  \<^verbatim>\<open>kvmd/auth\<close> replaced by \<open>auth'\<close> and nothing else changed: the same top-level
  keys in the same order, the same entries beside \<^verbatim>\<open>kvmd\<close>, and below \<^verbatim>\<open>kvmd\<close> the
  keys and entries of the literal beside \<^verbatim>\<open>auth\<close>.
\<close>

definition auth_replaced :: "scheme \<Rightarrow> scheme \<Rightarrow> scheme \<Rightarrow> bool" where
  "auth_replaced base S auth' =
     (map fst S = map fst base \<and>
      filter (\<lambda>e. fst e \<noteq> ''kvmd'') S = filter (\<lambda>e. fst e \<noteq> ''kvmd'') base \<and>
      (case dict_get S ''kvmd'' of
         Some (Section kv) \<Rightarrow>
           map fst kv = map fst scheme_kvmd \<and>
           filter (\<lambda>e. fst e \<noteq> ''auth'') kv = filter (\<lambda>e. fst e \<noteq> ''auth'') scheme_kvmd \<and>
           dict_get kv ''auth'' = Some (Section auth')
       | _ \<Rightarrow> False))"

text \<open>
  The two-phase protocol in the words of the specification (section 4.4, steps 2 to
  6), to compare \<open>init_config\<close> with: resolve the merged raw mapping against the base
  scheme, extend the scheme from the selectors of the result, resolve the same merged
  raw mapping against the extended scheme and return that.
\<close>

definition pass2_config ::
  "('a, 'cfg) collaborators \<Rightarrow> 'a dict \<Rightarrow> scheme \<Rightarrow> exn + 'cfg" where
  "pass2_config w merged scheme =
     (case make_config w merged scheme of
        Inl e \<Rightarrow> Inl e
      | Inr config \<Rightarrow>
          (case extend_scheme w config scheme of
             Inl e \<Rightarrow> Inl e
           | Inr scheme2 \<Rightarrow> make_config w merged scheme2))"

section \<open>Dictionaries\<close>

lemma dict_get_Nil: "dict_get [] k = None"
  by (simp add: dict_get_def)

lemma dict_get_Cons:
  "dict_get ((key, v) # d) k = (if k = key then Some v else dict_get d k)"
  by (simp add: dict_get_def)

lemma dict_get_append:
  "dict_get (d @ e) k = (case dict_get d k of None \<Rightarrow> dict_get e k | Some v \<Rightarrow> Some v)"
  unfolding dict_get_def by (simp add: map_add_def)

lemma dict_get_dict_set:
  "dict_get (dict_set key v d) k = (if k = key then Some v else dict_get d k)"
  by (induction d) (auto simp: dict_get_def)

lemma dict_set_present_keys:
  "dict_get d key = Some old \<Longrightarrow> map fst (dict_set key v d) = map fst d"
  by (induction d) (auto simp: dict_get_def split: if_splits)

lemma dict_set_absent:
  "dict_get d key = None \<Longrightarrow> dict_set key v d = d @ [(key, v)]"
  by (induction d) (auto simp: dict_get_def split: if_splits)

lemma dict_set_others:
  "filter (\<lambda>e. fst e \<noteq> key) (dict_set key v d) = filter (\<lambda>e. fst e \<noteq> key) d"
  by (induction d) auto

lemma dict_set_twice:
  "dict_set key v (dict_set key v' d) = dict_set key v d"
  by (induction d) auto

lemma dict_get_filter_keys:
  "dict_get (filter (\<lambda>(k, v). P k) d) key = (if P key then dict_get d key else None)"
  by (induction d) (auto simp: dict_get_def)

lemma keys_filter: "map fst (filter (\<lambda>(k, v). P k) d) = filter P (map fst d)"
  by (induction d) auto

section \<open>Merging the overrides into the raw mapping\<close>

subsection \<open>The loop on a tree\<close>

text \<open>One turn of the loop stores \<open>merged_value\<close> at the key.\<close>

lemma merge_trees_step:
  "merge_trees dest ((key, v) # src) =
     merge_trees (dict_set key (merged_value (dict_get dest key) v) dest) src"
  by (simp add: merged_value_def split: option.splits raw.splits)

text \<open>A key that \<open>src\<close> does not have is never written.\<close>

lemma merge_trees_other:
  "k \<notin> fst ` set src \<Longrightarrow> dict_get (merge_trees dest src) k = dict_get dest k"
proof (induction src arbitrary: dest)
  case Nil
  then show ?case by simp
next
  case (Cons e src)
  obtain key v where e: "e = (key, v)" by (cases e)
  from Cons.prems e have "k \<noteq> key" and "k \<notin> fst ` set src" by auto
  then show ?case
    unfolding e merge_trees_step by (simp add: Cons.IH dict_get_dict_set)
qed

text \<open>A key of \<open>src\<close> is written once, from the value \<open>dest\<close> had before the merge.\<close>

lemma merge_trees_lookup:
  "distinct (map fst src) \<Longrightarrow> dict_get src k = Some v \<Longrightarrow>
   dict_get (merge_trees dest src) k = Some (merged_value (dict_get dest k) v)"
proof (induction src arbitrary: dest)
  case Nil
  then show ?case by (simp add: dict_get_def)
next
  case (Cons e src)
  obtain key w where e: "e = (key, w)" by (cases e)
  show ?case
  proof (cases "k = key")
    case True
    with Cons.prems e have "w = v" and "k \<notin> fst ` set src"
      by (auto simp: dict_get_def)
    then show ?thesis
      unfolding e merge_trees_step using True
      by (simp add: merge_trees_other dict_get_dict_set)
  next
    case False
    with Cons.prems e have "distinct (map fst src)" and "dict_get src k = Some v"
      by (auto simp: dict_get_def)
    then show ?thesis
      unfolding e merge_trees_step using False
      by (simp add: Cons.IH dict_get_dict_set)
  qed
qed

text \<open>The keys of the result: those of \<open>dest\<close> in their order, then the new ones.\<close>

lemma merge_trees_keys:
  "set (map fst (merge_trees dest src)) = set (map fst dest) \<union> set (map fst src)"
proof (induction src arbitrary: dest)
  case Nil
  then show ?case by simp
next
  case (Cons e src)
  obtain key v where e: "e = (key, v)" by (cases e)
  have "set (map fst (dict_set key w dest)) = insert key (set (map fst dest))" for w
    by (induction dest) auto
  then show ?case
    unfolding e merge_trees_step Cons.IH by auto
qed

text \<open>
  What the merged tree holds at a key: the recursive merge where both have a
  dictionary, the value of \<open>src\<close> at any other key of \<open>src\<close> (a list is not
  concatenated), the value of \<open>dest\<close> at a key that only \<open>dest\<close> has.
\<close>

lemma merge_trees_characterised:
  "(distinct (map fst src) \<longrightarrow>
      (dict_get dest k = Some (Dict d) \<and> dict_get src k = Some (Dict s) \<longrightarrow>
         dict_get (merge_trees dest src) k = Some (Dict (merge_trees d s)))
    \<and> (dict_get src k = Some v \<and> \<not> (\<exists>d s. dict_get dest k = Some (Dict d) \<and> v = Dict s) \<longrightarrow>
         dict_get (merge_trees dest src) k = Some v)
    \<and> (dict_get src k = Some (List xs) \<longrightarrow>
         dict_get (merge_trees dest src) k = Some (List xs)))
   \<and> (dict_get src k = None \<longrightarrow>
         dict_get (merge_trees dest src) k = dict_get dest k)"
proof -
  have "dict_get (merge_trees dest src) k = Some (Dict (merge_trees d s))"
    if "distinct (map fst src)" "dict_get dest k = Some (Dict d)" "dict_get src k = Some (Dict s)"
    using merge_trees_lookup [OF that(1) that(3), of dest] that(2)
    by (simp add: merged_value_def)
  moreover have "dict_get (merge_trees dest src) k = Some v"
    if "distinct (map fst src)" "dict_get src k = Some v"
       "\<not> (\<exists>d s. dict_get dest k = Some (Dict d) \<and> v = Dict s)"
    using merge_trees_lookup [OF that(1) that(2), of dest] that(3)
    by (auto simp: merged_value_def split: option.splits raw.splits)
  moreover have "dict_get (merge_trees dest src) k = Some (List xs)"
    if "distinct (map fst src)" "dict_get src k = Some (List xs)"
    using merge_trees_lookup [OF that(1) that(2), of dest]
    by (auto simp: merged_value_def split: option.splits raw.splits)
  moreover have "dict_get (merge_trees dest src) k = dict_get dest k"
    if "dict_get src k = None"
    using that merge_trees_other [of k src dest]
    by (simp add: dict_get_def map_of_eq_None_iff)
  ultimately show ?thesis by blast
qed

subsection \<open>The loop on the store\<close>

text \<open>
  A store that differs from \<open>h\<close> only outside the addresses a tree reaches holds the
  same tree.
\<close>

lemma tree_frame:
  "tree_val h F v t \<Longrightarrow> (\<forall>c\<in>F. h' c = h c) \<Longrightarrow> tree_val h' F v t"
  "tree_entries h F es d \<Longrightarrow> (\<forall>c\<in>F. h' c = h c) \<Longrightarrow> tree_entries h' F es d"
proof (induction rule: tree_val_tree_entries.inducts)
  case (inline t)
  show ?case by (rule tree_val_tree_entries.inline)
next
  case (object F a d)
  then have "tree_entries h' F (h' a) d" and "a \<notin> F" by simp_all
  then show ?case by (rule tree_val_tree_entries.object)
next
  case no_entries
  show ?case by (rule tree_val_tree_entries.no_entries)
next
  case (entry F1 v t F2 es d k)
  then show ?case by (auto intro: tree_val_tree_entries.entry)
qed

text \<open>Storing a value at a key the dictionary does not have.\<close>

lemma tree_entries_absent:
  assumes "tree_entries h F es d" and "dict_get es key = None"
  shows "dict_get d key = None"
    and "tree_entries h F (dict_set key (Val t) es) (dict_set key t d)"
  using assms
proof (induction es arbitrary: F d)
  case Nil
  {
    case 1
    then show ?case by (auto elim: tree_entries.cases simp: dict_get_def)
  next
    case 2
    then have "d = []" "F = {}" by (auto elim: tree_entries.cases)
    moreover have "tree_entries h ({} \<union> {}) [(key, Val t)] [(key, t)]"
      by (intro tree_val_tree_entries.entry tree_val_tree_entries.inline
          tree_val_tree_entries.no_entries) simp
    ultimately show ?case by simp
  }
next
  case (Cons e es)
  {
    case 1
    from 1(1) obtain k v t0 F1 F2 d' where
      e: "e = (k, v)" and d: "d = (k, t0) # d'" and rest: "tree_entries h F2 es d'"
      by (auto elim: tree_entries.cases)
    from 1(2) e have "k \<noteq> key" "dict_get es key = None"
      by (auto simp: dict_get_def split: if_splits)
    with Cons.IH(1) [OF rest] d show ?case by (simp add: dict_get_def)
  next
    case 2
    from 2(1) obtain k v t0 F1 F2 d' where
      e: "e = (k, v)" and d: "d = (k, t0) # d'" and F: "F = F1 \<union> F2" and
      v: "tree_val h F1 v t0" and rest: "tree_entries h F2 es d'" and disj: "F1 \<inter> F2 = {}"
      by (auto elim: tree_entries.cases)
    from 2(2) e have ne: "k \<noteq> key" and "dict_get es key = None"
      by (auto simp: dict_get_def split: if_splits)
    from Cons.IH(2) [OF rest this(2)]
    have "tree_entries h F2 (dict_set key (Val t) es) (dict_set key t d')" .
    with v disj have "tree_entries h (F1 \<union> F2) ((k, v) # dict_set key (Val t) es)
                        ((k, t0) # dict_set key t d')"
      by (intro tree_val_tree_entries.entry)
    with e d F ne show ?case by simp
  }
qed

text \<open>
  A key the dictionary has: its value is a tree of its own, apart from the rest of the
  entries, and may be replaced by any tree that stays within the addresses of the old
  one.
\<close>

lemma tree_entries_present:
  assumes "tree_entries h F es d" and "dict_get es key = Some v"
  shows "\<exists>Fv Fr t. dict_get d key = Some t \<and> tree_val h Fv v t \<and> Fv \<inter> Fr = {} \<and> F = Fv \<union> Fr \<and>
           (\<forall>h' v' t' Fv'. (\<forall>c\<in>Fr. h' c = h c) \<longrightarrow> tree_val h' Fv' v' t' \<longrightarrow> Fv' \<subseteq> Fv \<longrightarrow>
              tree_entries h' (Fv' \<union> Fr) (dict_set key v' es) (dict_set key t' d))"
  using assms
proof (induction es arbitrary: F d)
  case Nil
  then show ?case by (simp add: dict_get_def)
next
  case (Cons e es)
  from Cons.prems(1) obtain k w t0 F1 F2 d' where
    e: "e = (k, w)" and d: "d = (k, t0) # d'" and F: "F = F1 \<union> F2" and
    w: "tree_val h F1 w t0" and rest: "tree_entries h F2 es d'" and disj: "F1 \<inter> F2 = {}"
    by (auto elim: tree_entries.cases)
  show ?case
  proof (cases "k = key")
    case True
    with Cons.prems(2) e have wv: "w = v" by (simp add: dict_get_def)
    have "tree_entries h' (Fv' \<union> F2) (dict_set key v' (e # es)) (dict_set key t' d)"
      if "\<forall>c\<in>F2. h' c = h c" "tree_val h' Fv' v' t'" "Fv' \<subseteq> F1" for h' v' t' Fv'
    proof -
      from tree_frame(2) [OF rest that(1)] have "tree_entries h' F2 es d'" .
      moreover from that(3) disj have "Fv' \<inter> F2 = {}" by auto
      ultimately have "tree_entries h' (Fv' \<union> F2) ((key, v') # es) ((key, t') # d')"
        using that(2) by (intro tree_val_tree_entries.entry)
      with True e d show ?thesis by simp
    qed
    with True d w wv disj F show ?thesis
      by (intro exI [of _ F1] exI [of _ F2] exI [of _ t0]) (simp add: dict_get_def)
  next
    case False
    with Cons.prems(2) e have "dict_get es key = Some v" by (simp add: dict_get_def)
    from Cons.IH [OF rest this] obtain Fv Fr t where
      t: "dict_get d' key = Some t" and v: "tree_val h Fv v t" and dj: "Fv \<inter> Fr = {}" and
      F2: "F2 = Fv \<union> Fr" and
      upd: "\<And>h' v' t' Fv'. (\<forall>c\<in>Fr. h' c = h c) \<Longrightarrow> tree_val h' Fv' v' t' \<Longrightarrow> Fv' \<subseteq> Fv \<Longrightarrow>
              tree_entries h' (Fv' \<union> Fr) (dict_set key v' es) (dict_set key t' d')"
      by blast
    have "tree_entries h' (Fv' \<union> (F1 \<union> Fr)) (dict_set key v' (e # es)) (dict_set key t' d)"
      if "\<forall>c\<in>F1 \<union> Fr. h' c = h c" "tree_val h' Fv' v' t'" "Fv' \<subseteq> Fv" for h' v' t' Fv'
    proof -
      from that(1) have "\<forall>c\<in>Fr. h' c = h c" "\<forall>c\<in>F1. h' c = h c" by auto
      from upd [OF this(1) that(2,3)] tree_frame(1) [OF w this(2)]
      have "tree_entries h' (Fv' \<union> Fr) (dict_set key v' es) (dict_set key t' d')"
        and "tree_val h' F1 w t0" .
      moreover from disj F2 that(3) have "F1 \<inter> (Fv' \<union> Fr) = {}" by auto
      ultimately have "tree_entries h' (F1 \<union> (Fv' \<union> Fr)) ((k, w) # dict_set key v' es)
                          ((k, t0) # dict_set key t' d')"
        by (intro tree_val_tree_entries.entry)
      moreover have "F1 \<union> (Fv' \<union> Fr) = Fv' \<union> (F1 \<union> Fr)" by auto
      ultimately show ?thesis using False e d by simp
    qed
    moreover from disj F2 dj have "Fv \<inter> (F1 \<union> Fr) = {}" by auto
    moreover from F F2 have "F = Fv \<union> (F1 \<union> Fr)" by auto
    ultimately show ?thesis
      using t v False d
      by (intro exI [of _ Fv] exI [of _ "F1 \<union> Fr"] exI [of _ t]) (simp add: dict_get_def)
  qed
qed

lemma dict_set_same: "dict_get es key = Some v \<Longrightarrow> dict_set key v es = es"
  by (induction es) (auto simp: dict_get_def split: if_splits)

lemma tree_val_Val: "tree_val h F (Val t0) t \<Longrightarrow> t = t0 \<and> F = {}"
  by (erule tree_val.cases) auto

lemma tree_val_Ref:
  "tree_val h F (Ref b) t \<Longrightarrow>
   \<exists>db Fb. t = Dict db \<and> F = insert b Fb \<and> b \<notin> Fb \<and> tree_entries h Fb (h b) db"
  by (erule tree_val.cases) auto

text \<open>
  One turn of the loop on the store: it recurses when the key refers to a dictionary
  object and \<^verbatim>\<open>src\<close> has a dictionary there, and stores \<open>merged_value\<close> otherwise.
\<close>

lemma merge_dicts_recursion:
  "dict_get (h a) key = Some (Ref b) \<Longrightarrow>
   merge_dicts h a ((key, Dict s) # rest) = merge_dicts (merge_dicts h b s) a rest"
  by simp

lemma merge_dicts_store:
  assumes "tree_entries h F (h a) d"
    and "\<not> (\<exists>b s. dict_get (h a) key = Some (Ref b) \<and> v = Dict s)"
  shows "merge_dicts h a ((key, v) # rest) =
           merge_dicts (h(a := dict_set key (Val (merged_value (dict_get d key) v)) (h a))) a rest"
proof (cases "dict_get (h a) key")
  case None
  with tree_entries_absent(1) [OF assms(1) None] show ?thesis
    by (simp add: merged_value_def)
next
  case (Some old)
  from tree_entries_present [OF assms(1) Some] obtain Fv t where
    t: "dict_get d key = Some t" and old: "tree_val h Fv old t"
    by blast
  show ?thesis
  proof (cases old)
    case (Val t0)
    with old have "t = t0" by (auto dest: tree_val_Val)
    with Some Val t show ?thesis
      by (simp add: merged_value_def split: raw.splits)
  next
    case (Ref b)
    with old obtain db where "t = Dict db" by (auto dest: tree_val_Ref)
    with Some Ref t assms(2) show ?thesis
      by (simp add: merged_value_def split: raw.splits)
  qed
qed

lemma tree_entries_store:
  assumes "tree_entries h F (h a) d" and "a \<notin> F"
  shows "\<exists>F1. F1 \<subseteq> F \<and>
           tree_entries (h(a := dict_set key (Val t') (h a))) F1
             (dict_set key (Val t') (h a)) (dict_set key t' d)"
proof (cases "dict_get (h a) key")
  case None
  let ?h1 = "h(a := dict_set key (Val t') (h a))"
  from tree_entries_absent(2) [OF assms(1) None]
  have "tree_entries h F (dict_set key (Val t') (h a)) (dict_set key t' d)" .
  moreover from assms(2) have "\<forall>c\<in>F. ?h1 c = h c" by auto
  ultimately have "tree_entries ?h1 F (dict_set key (Val t') (h a)) (dict_set key t' d)"
    by (rule tree_frame(2))
  then show ?thesis by blast
next
  case (Some old)
  let ?h1 = "h(a := dict_set key (Val t') (h a))"
  from tree_entries_present [OF assms(1) Some] obtain Fv Fr where
    F: "F = Fv \<union> Fr" and
    upd: "\<And>h' v' t' Fv'. (\<forall>c\<in>Fr. h' c = h c) \<Longrightarrow> tree_val h' Fv' v' t' \<Longrightarrow> Fv' \<subseteq> Fv \<Longrightarrow>
            tree_entries h' (Fv' \<union> Fr) (dict_set key v' (h a)) (dict_set key t' d)"
    by blast
  from assms(2) F have "\<forall>c\<in>Fr. ?h1 c = h c" by auto
  moreover have "tree_val ?h1 {} (Val t') t'" by (rule tree_val_tree_entries.inline)
  ultimately have "tree_entries ?h1 ({} \<union> Fr) (dict_set key (Val t') (h a)) (dict_set key t' d)"
    by (rule upd) simp
  with F show ?thesis by (intro exI [of _ Fr]) simp
qed

lemma size_src_tail:
  "size_list (size_prod (\<lambda>_. 0) size) rest
     < size_list (size_prod (\<lambda>_. 0) size) ((key, v) # rest)"
  by simp

lemma size_src_inner:
  "size_list (size_prod (\<lambda>_. 0) size) s
     < size_list (size_prod (\<lambda>_. 0) size) ((key, Dict s) # rest)"
  by simp

text \<open>
  On a base that is a tree, \<^verbatim>\<open>_merge_dicts\<close> leaves a tree again, with the content
  \<open>merge_trees\<close> computes, and changes no object outside the base.
\<close>

lemma merge_dicts_refines:
  "tree_entries h F (h a) d \<Longrightarrow> a \<notin> F \<Longrightarrow>
   (\<forall>c. c \<notin> insert a F \<longrightarrow> merge_dicts h a src c = h c) \<and>
   (\<exists>F'. F' \<subseteq> F \<and>
      tree_entries (merge_dicts h a src) F' (merge_dicts h a src a) (merge_trees d src))"
proof (induction src arbitrary: h a F d
    rule: measure_induct_rule [where f = "size_list (size_prod (\<lambda>_. 0) size)"])
  case (less src)
  show ?case
  proof (cases src)
    case Nil
    with less.prems show ?thesis by auto
  next
    case (Cons e rest)
    obtain key v where e: "e = (key, v)" by (cases e)
    note src = Cons [unfolded e]
    show ?thesis
    proof (cases "\<exists>b s. dict_get (h a) key = Some (Ref b) \<and> v = Dict s")
      case True
      then obtain b s where b: "dict_get (h a) key = Some (Ref b)" and v: "v = Dict s"
        by blast
      from tree_entries_present [OF less.prems(1) b] obtain Fv Fr t where
        t: "dict_get d key = Some t" and old: "tree_val h Fv (Ref b) t" and
        dj: "Fv \<inter> Fr = {}" and F: "F = Fv \<union> Fr" and
        upd: "\<And>h' v' t' Fv'. (\<forall>c\<in>Fr. h' c = h c) \<Longrightarrow> tree_val h' Fv' v' t' \<Longrightarrow> Fv' \<subseteq> Fv \<Longrightarrow>
                tree_entries h' (Fv' \<union> Fr) (dict_set key v' (h a)) (dict_set key t' d)"
        by blast
      from tree_val_Ref [OF old] obtain db Fb where
        tdb: "t = Dict db" and Fv: "Fv = insert b Fb" and bFb: "b \<notin> Fb" and
        inner: "tree_entries h Fb (h b) db"
        by blast
      let ?h1 = "merge_dicts h b s"
      have "size_list (size_prod (\<lambda>_. 0) size) s < size_list (size_prod (\<lambda>_. 0) size) src"
        unfolding src v by (rule size_src_inner)
      from less.IH [OF this inner bFb] obtain Fb' where
        frame1: "\<And>c. c \<notin> insert b Fb \<Longrightarrow> ?h1 c = h c" and
        Fb': "Fb' \<subseteq> Fb" and
        inner': "tree_entries ?h1 Fb' (?h1 b) (merge_trees db s)"
        by blast
      from Fb' bFb have "b \<notin> Fb'" by auto
      with inner' have new: "tree_val ?h1 (insert b Fb') (Ref b) (Dict (merge_trees db s))"
        by (rule tree_val_tree_entries.object)
      from dj Fv have "\<forall>c\<in>Fr. ?h1 c = h c" by (auto intro: frame1)
      moreover from Fb' Fv have "insert b Fb' \<subseteq> Fv" by auto
      ultimately have "tree_entries ?h1 (insert b Fb' \<union> Fr) (dict_set key (Ref b) (h a))
                          (dict_set key (Dict (merge_trees db s)) d)"
        using new by (intro upd)
      moreover from less.prems(2) F Fv have "?h1 a = h a" by (auto intro: frame1)
      ultimately have rep1: "tree_entries ?h1 (insert b Fb' \<union> Fr) (?h1 a)
                               (dict_set key (Dict (merge_trees db s)) d)"
        by (simp add: dict_set_same [OF b])
      let ?F1 = "insert b Fb' \<union> Fr"
      from Fb' F Fv have F1: "?F1 \<subseteq> F" by auto
      with less.prems(2) have aF1: "a \<notin> ?F1" by auto
      have "size_list (size_prod (\<lambda>_. 0) size) rest < size_list (size_prod (\<lambda>_. 0) size) src"
        unfolding src by (rule size_src_tail)
      from less.IH [OF this rep1 aF1] obtain F' where
        frame2: "\<And>c. c \<notin> insert a ?F1 \<Longrightarrow> merge_dicts ?h1 a rest c = ?h1 c" and
        F': "F' \<subseteq> ?F1" and
        rep2: "tree_entries (merge_dicts ?h1 a rest) F' (merge_dicts ?h1 a rest a)
                 (merge_trees (dict_set key (Dict (merge_trees db s)) d) rest)"
        by blast
      have run: "merge_dicts h a src = merge_dicts ?h1 a rest"
        unfolding src v using b by (rule merge_dicts_recursion)
      have pure: "merge_trees d src = merge_trees (dict_set key (Dict (merge_trees db s)) d) rest"
        unfolding src v using t tdb by simp
      have "merge_dicts h a src c = h c" if "c \<notin> insert a F" for c
      proof -
        from that F1 have "c \<notin> insert a ?F1" by auto
        moreover from that F Fv have "c \<notin> insert b Fb" by auto
        ultimately show ?thesis unfolding run by (simp add: frame2 frame1)
      qed
      moreover from F' F1 have "F' \<subseteq> F" by auto
      ultimately show ?thesis
        using rep2 unfolding run pure by blast
    next
      case False
      let ?t' = "merged_value (dict_get d key) v"
      let ?h1 = "h(a := dict_set key (Val ?t') (h a))"
      have run: "merge_dicts h a src = merge_dicts ?h1 a rest"
        unfolding src by (rule merge_dicts_store [OF less.prems(1) False])
      have pure: "merge_trees d src = merge_trees (dict_set key ?t' d) rest"
        unfolding src by (rule merge_trees_step)
      from tree_entries_store [OF less.prems, of key ?t'] obtain F1 where
        F1: "F1 \<subseteq> F" and
        rep1: "tree_entries ?h1 F1 (?h1 a) (dict_set key ?t' d)"
        by auto
      from F1 less.prems(2) have aF1: "a \<notin> F1" by auto
      have "size_list (size_prod (\<lambda>_. 0) size) rest < size_list (size_prod (\<lambda>_. 0) size) src"
        unfolding src by (rule size_src_tail)
      from less.IH [OF this rep1 aF1] obtain F' where
        frame2: "\<And>c. c \<notin> insert a F1 \<Longrightarrow> merge_dicts ?h1 a rest c = ?h1 c" and
        F': "F' \<subseteq> F1" and
        rep2: "tree_entries (merge_dicts ?h1 a rest) F' (merge_dicts ?h1 a rest a)
                 (merge_trees (dict_set key ?t' d) rest)"
        by blast
      have "merge_dicts h a src c = h c" if "c \<notin> insert a F" for c
      proof -
        from that F1 have "c \<notin> insert a F1" by auto
        with that show ?thesis unfolding run by (simp add: frame2)
      qed
      moreover from F' F1 have "F' \<subseteq> F" by auto
      ultimately show ?thesis
        using rep2 unfolding run pure by blast
    qed
  qed
qed

text \<open>A tree is read back from the store once the depth suffices.\<close>

lemma tree_read:
  "tree_val h F v t \<Longrightarrow> \<exists>n. \<forall>m\<ge>n. read_tree m h v = Some t"
  "tree_entries h F es d \<Longrightarrow> \<exists>n. \<forall>m\<ge>n. read_entries m h es = Some d"
proof (induction rule: tree_val_tree_entries.inducts)
  case (inline t)
  show ?case by simp
next
  case (object F a d)
  then obtain n where n: "\<forall>m\<ge>n. read_entries m h (h a) = Some d" by blast
  have "read_tree m h (Ref a) = Some (Dict d)" if "m \<ge> Suc n" for m
  proof -
    from that obtain m' where "m = Suc m'" and "m' \<ge> n" by (cases m) auto
    with n show ?thesis by simp
  qed
  then show ?case by blast
next
  case no_entries
  show ?case by simp
next
  case (entry F1 v t F2 es d k)
  then obtain n1 n2 where n1: "\<forall>m\<ge>n1. read_tree m h v = Some t"
    and n2: "\<forall>m\<ge>n2. read_entries m h es = Some d" by blast
  have "read_entries m h ((k, v) # es) = Some ((k, t) # d)" if "m \<ge> max n1 n2" for m
    using that n1 n2 by simp
  then show ?case by blast
qed

text \<open>The example base is a tree.\<close>

lemma tree_entries_inline:
  "tree_entries h {} (map (\<lambda>(k, t). (k, Val t)) d) d"
proof (induction d)
  case Nil
  show ?case by (simp add: tree_val_tree_entries.no_entries)
next
  case (Cons e d)
  obtain k t where e: "e = (k, t)" by (cases e)
  have "tree_entries h ({} \<union> {}) ((k, Val t) # map (\<lambda>(k, t). (k, Val t)) d) ((k, t) # d)"
    by (rule tree_val_tree_entries.entry [OF tree_val_tree_entries.inline Cons.IH]) simp
  then show ?case by (simp add: e)
qed

lemma tree_heap_tree: "tree_entries tree_heap {1, 2} (tree_heap 0) tree_doc"
proof -
  have "tree_entries tree_heap {} (tree_heap 1) [(''x'', Scalar 1), (''y'', Scalar 2)]"
    using tree_entries_inline [of tree_heap "[(''x'', Scalar 1), (''y'', Scalar 2)]"]
    by (simp add: tree_heap_def)
  then have a: "tree_val tree_heap (insert 1 {}) (Ref 1) (Dict [(''x'', Scalar 1), (''y'', Scalar 2)])"
    by (rule tree_val_tree_entries.object) simp
  have "tree_entries tree_heap {} (tree_heap 2) [(''x'', Scalar 1)]"
    using tree_entries_inline [of tree_heap "[(''x'', Scalar 1)]"]
    by (simp add: tree_heap_def)
  then have b: "tree_val tree_heap (insert 2 {}) (Ref 2) (Dict [(''x'', Scalar 1)])"
    by (rule tree_val_tree_entries.object) simp
  have e1: "tree_entries tree_heap (insert 2 {} \<union> {}) [(''b'', Ref 2)]
              [(''b'', Dict [(''x'', Scalar 1)])]"
    by (rule tree_val_tree_entries.entry [OF b tree_val_tree_entries.no_entries]) simp
  have e2: "tree_entries tree_heap ({} \<union> (insert 2 {} \<union> {}))
               [(''s'', Val (Scalar 5)), (''b'', Ref 2)]
               [(''s'', Scalar 5), (''b'', Dict [(''x'', Scalar 1)])]"
    by (rule tree_val_tree_entries.entry [OF tree_val_tree_entries.inline e1]) simp
  have e3: "tree_entries tree_heap ({} \<union> ({} \<union> (insert 2 {} \<union> {})))
               [(''l'', Val (List [Scalar 1, Scalar 2])), (''s'', Val (Scalar 5)), (''b'', Ref 2)]
               [(''l'', List [Scalar 1, Scalar 2]), (''s'', Scalar 5),
                (''b'', Dict [(''x'', Scalar 1)])]"
    by (rule tree_val_tree_entries.entry [OF tree_val_tree_entries.inline e2]) simp
  have "tree_entries tree_heap (insert 1 {} \<union> ({} \<union> ({} \<union> (insert 2 {} \<union> {}))))
               [(''a'', Ref 1), (''l'', Val (List [Scalar 1, Scalar 2])), (''s'', Val (Scalar 5)),
                (''b'', Ref 2)]
               [(''a'', Dict [(''x'', Scalar 1), (''y'', Scalar 2)]),
                (''l'', List [Scalar 1, Scalar 2]), (''s'', Scalar 5),
                (''b'', Dict [(''x'', Scalar 1)])]"
    by (rule tree_val_tree_entries.entry [OF a e3]) simp
  moreover have "insert 1 {} \<union> ({} \<union> ({} \<union> (insert 2 {} \<union> {}))) = {1, 2::nat}" by auto
  ultimately show ?thesis
    by (simp add: tree_heap_def tree_doc_def)
qed

text \<open>
  Claim C1, as amended. For a base mapping that is a tree (no dictionary object below
  \<^verbatim>\<open>dest\<close> is reachable along two paths, as in a document loaded from a YAML file
  without aliases; \<open>d\<close> is its content and \<open>F\<close> are the addresses of the objects below
  it): after \<^verbatim>\<open>_merge_dicts\<close> the object \<^verbatim>\<open>dest\<close> reads as \<open>merge_trees d src\<close>, it is
  a tree again, and no object outside the base has changed. For an override with
  distinct keys (as those of a dictionary are), what \<^verbatim>\<open>dest\<close> then reads holds at a
  key that both have with dictionary values the recursive merge of the two; at any
  other key of \<open>src\<close> the value of \<open>src\<close>, whatever the base had there; a list of
  \<open>src\<close> replaces what the base had and is not concatenated with it; a key that only
  the base has keeps its value.
  Merging \<^verbatim>\<open>{"a":{"x":1,"y":2}}\<close> with \<^verbatim>\<open>{"a":{"x":9}}\<close> gives
  \<^verbatim>\<open>{"a":{"x":9,"y":2}}\<close>.
\<close>

theorem merge_dicts_deep_merge:
  "(tree_entries h F (h dest) d \<and> dest \<notin> F \<longrightarrow>
      (\<exists>n. read_tree n (merge_dicts h dest src) (Ref dest) = Some (Dict (merge_trees d src)))
    \<and> (\<exists>F'. F' \<subseteq> F \<and> tree_entries (merge_dicts h dest src) F' (merge_dicts h dest src dest)
                (merge_trees d src))
    \<and> (\<forall>c. c \<notin> insert dest F \<longrightarrow> merge_dicts h dest src c = h c)
    \<and> (distinct (map fst src) \<longrightarrow>
         (dict_get d k = Some (Dict d') \<and> dict_get src k = Some (Dict s) \<longrightarrow>
            dict_get (merge_trees d src) k = Some (Dict (merge_trees d' s)))
       \<and> (dict_get src k = Some v \<and> \<not> (\<exists>d' s. dict_get d k = Some (Dict d') \<and> v = Dict s) \<longrightarrow>
            dict_get (merge_trees d src) k = Some v)
       \<and> (dict_get src k = Some (List xs) \<longrightarrow>
            dict_get (merge_trees d src) k = Some (List xs)))
    \<and> (dict_get src k = None \<longrightarrow> dict_get (merge_trees d src) k = dict_get d k))
   \<and> read_tree 2 (merge_dicts spec_heap 0 [(''a'', Dict [(''x'', Scalar 9)])]) (Ref 0)
       = Some (Dict [(''a'', Dict [(''x'', Scalar 9), (''y'', Scalar 2)])])"
proof -
  let ?h' = "merge_dicts h dest src"
  have heap: "(\<exists>n. read_tree n ?h' (Ref dest) = Some (Dict (merge_trees d src)))
      \<and> (\<exists>F'. F' \<subseteq> F \<and> tree_entries ?h' F' (?h' dest) (merge_trees d src))
      \<and> (\<forall>c. c \<notin> insert dest F \<longrightarrow> ?h' c = h c)"
    if tree: "tree_entries h F (h dest) d" and fresh: "dest \<notin> F"
  proof -
    from merge_dicts_refines [OF tree fresh, of src] obtain F' where
      frame: "\<forall>c. c \<notin> insert dest F \<longrightarrow> ?h' c = h c" and
      F': "F' \<subseteq> F" and
      rep: "tree_entries ?h' F' (?h' dest) (merge_trees d src)"
      by blast
    from F' fresh have "dest \<notin> F'" by auto
    with rep have "tree_val ?h' (insert dest F') (Ref dest) (Dict (merge_trees d src))"
      by (rule tree_val_tree_entries.object)
    from tree_read(1) [OF this]
    have "\<exists>n. read_tree n ?h' (Ref dest) = Some (Dict (merge_trees d src))" by blast
    with F' rep frame show ?thesis by blast
  qed
  have example:
    "read_tree 2 (merge_dicts spec_heap 0 [(''a'', Dict [(''x'', Scalar 9)])]) (Ref 0)
       = Some (Dict [(''a'', Dict [(''x'', Scalar 9), (''y'', Scalar 2)])])"
    by code_simp
  from heap merge_trees_characterised [of src d k d' s v xs] example
  show ?thesis by blast
qed

text \<open>
  The theorem on a base with two dictionary objects, a list, a scalar and a key of its
  own, and an override that touches the first three and adds a key.
\<close>

theorem merge_dicts_deep_merge_witness:
  "tree_entries tree_heap {1, 2} (tree_heap 0) tree_doc
   \<and> 0 \<notin> {1, 2::nat}
   \<and> distinct (map fst tree_src)
   \<and> (\<exists>n. read_tree n (merge_dicts tree_heap 0 tree_src) (Ref 0)
            = Some (Dict [(''a'', Dict [(''x'', Scalar 9), (''y'', Scalar 2)]),
                          (''l'', List [Scalar 3]), (''s'', Dict [(''z'', Scalar 0)]),
                          (''b'', Dict [(''x'', Scalar 1)]), (''n'', Scalar 7)]))
   \<and> merge_dicts tree_heap 0 tree_src 3 = tree_heap 3
   \<and> dict_get (merge_trees tree_doc tree_src) ''a''
       = Some (Dict [(''x'', Scalar 9), (''y'', Scalar 2)])
   \<and> dict_get (merge_trees tree_doc tree_src) ''l'' = Some (List [Scalar 3])
   \<and> dict_get (merge_trees tree_doc tree_src) ''s'' = Some (Dict [(''z'', Scalar 0)])
   \<and> dict_get (merge_trees tree_doc tree_src) ''b'' = Some (Dict [(''x'', Scalar 1)])"
proof -
  note tree = tree_heap_tree
  have fresh: "0 \<notin> {1, 2::nat}" by simp
  have keys: "distinct (map fst tree_src)" by (simp add: tree_src_def)
  have merged: "merge_trees tree_doc tree_src
      = [(''a'', Dict [(''x'', Scalar 9), (''y'', Scalar 2)]),
         (''l'', List [Scalar 3]), (''s'', Dict [(''z'', Scalar 0)]),
         (''b'', Dict [(''x'', Scalar 1)]), (''n'', Scalar 7)]"
    by code_simp
  have inner: "merge_trees [(''x'', Scalar (1::int)), (''y'', Scalar 2)] [(''x'', Scalar 9)]
                 = [(''x'', Scalar 9), (''y'', Scalar 2)]"
    by code_simp
  have a: "dict_get tree_doc ''a'' = Some (Dict [(''x'', Scalar 1), (''y'', Scalar 2)])
           \<and> dict_get tree_src ''a'' = Some (Dict [(''x'', Scalar 9)])"
    by code_simp
  have l: "dict_get tree_src ''l'' = Some (List [Scalar 3])" by code_simp
  have s: "dict_get tree_src ''s'' = Some (Dict [(''z'', Scalar 0)])
           \<and> \<not> (\<exists>d' s. dict_get tree_doc ''s'' = Some (Dict d') \<and> Dict [(''z'', Scalar 0)] = Dict s)"
    by (simp add: tree_src_def tree_doc_def dict_get_def)
  have b: "dict_get tree_src ''b'' = None" by code_simp
  have b': "dict_get tree_doc ''b'' = Some (Dict [(''x'', Scalar 1)])" by code_simp
  note inst = merge_dicts_deep_merge
    [where h = tree_heap and F = "{1, 2}" and dest = 0 and d = tree_doc and src = tree_src]
  from inst [where k = "''a''" and d' = "[(''x'', Scalar 1), (''y'', Scalar 2)]"
              and s = "[(''x'', Scalar 9)]" and v = "Scalar 0" and xs = "[]",
            THEN conjunct1, THEN mp, OF conjI [OF tree fresh], THEN conjunct1]
       inst [where k = "''a''" and d' = "[(''x'', Scalar 1), (''y'', Scalar 2)]"
              and s = "[(''x'', Scalar 9)]" and v = "Scalar 0" and xs = "[]",
            THEN conjunct1, THEN mp, OF conjI [OF tree fresh], THEN conjunct2, THEN conjunct2,
            THEN conjunct1]
  have heap: "(\<exists>n. read_tree n (merge_dicts tree_heap 0 tree_src) (Ref 0)
                  = Some (Dict (merge_trees tree_doc tree_src)))
      \<and> merge_dicts tree_heap 0 tree_src 3 = tree_heap 3"
    by simp
  from inst [where k = "''a''" and d' = "[(''x'', Scalar 1), (''y'', Scalar 2)]"
              and s = "[(''x'', Scalar 9)]" and v = "Scalar 0" and xs = "[]",
            THEN conjunct1, THEN mp, OF conjI [OF tree fresh], THEN conjunct2, THEN conjunct2,
            THEN conjunct2, THEN conjunct1, THEN mp, OF keys, THEN conjunct1, THEN mp, OF a]
  have ra: "dict_get (merge_trees tree_doc tree_src) ''a''
              = Some (Dict [(''x'', Scalar 9), (''y'', Scalar 2)])"
    by (simp only: inner)
  from inst [where k = "''l''" and d' = "[]" and s = "[]" and v = "Scalar 0" and xs = "[Scalar 3]",
            THEN conjunct1, THEN mp, OF conjI [OF tree fresh], THEN conjunct2, THEN conjunct2,
            THEN conjunct2, THEN conjunct1, THEN mp, OF keys, THEN conjunct2, THEN conjunct2,
            THEN mp, OF l]
  have rl: "dict_get (merge_trees tree_doc tree_src) ''l'' = Some (List [Scalar 3])" .
  from inst [where k = "''s''" and d' = "[]" and s = "[]" and v = "Dict [(''z'', Scalar 0)]"
              and xs = "[]",
            THEN conjunct1, THEN mp, OF conjI [OF tree fresh], THEN conjunct2, THEN conjunct2,
            THEN conjunct2, THEN conjunct1, THEN mp, OF keys, THEN conjunct2, THEN conjunct1,
            THEN mp, OF s]
  have rs: "dict_get (merge_trees tree_doc tree_src) ''s'' = Some (Dict [(''z'', Scalar 0)])" .
  from inst [where k = "''b''" and d' = "[]" and s = "[]" and v = "Scalar 0" and xs = "[]",
            THEN conjunct1, THEN mp, OF conjI [OF tree fresh], THEN conjunct2, THEN conjunct2,
            THEN conjunct2, THEN conjunct2, THEN mp, OF b] b'
  have rb: "dict_get (merge_trees tree_doc tree_src) ''b'' = Some (Dict [(''x'', Scalar 1)])"
    by (simp only:)
  from tree fresh keys heap [unfolded merged] ra rl rs rb show ?thesis
    by (intro conjI) (erule conjunct1 conjunct2 | assumption)+
qed

text \<open>The base with the alias is not a tree, whatever addresses and content one tries.\<close>

lemma aliased_heap_not_tree: "\<not> tree_entries aliased_heap F (aliased_heap 0) d"
proof
  assume "tree_entries aliased_heap F (aliased_heap 0) d"
  then have "tree_entries aliased_heap F [(''a'', Ref 1), (''b'', Ref 1)] d"
    by (simp add: aliased_heap_def)
  then obtain F1 F2 t d1 where a: "tree_val aliased_heap F1 (Ref 1) t"
    and rest: "tree_entries aliased_heap F2 [(''b'', Ref 1)] d1" and dj: "F1 \<inter> F2 = {}"
    by (auto elim: tree_entries.cases)
  from rest obtain F3 F4 t' where b: "tree_val aliased_heap F3 (Ref 1) t'" and F2: "F2 = F3 \<union> F4"
    by (auto elim: tree_entries.cases)
  from tree_val_Ref [OF a] tree_val_Ref [OF b] have "1 \<in> F1" "1 \<in> F3" by auto
  with F2 dj show False by auto
qed

text \<open>
  Claim C1 as it is written, for every base raw mapping, fails on a base in which two
  keys refer to one dictionary object: merging \<^verbatim>\<open>{"a": {"x": 9}}\<close> into
  \<^verbatim>\<open>{a: &s {x: 1}, b: *s}\<close> recurses into the shared object through \<^verbatim>\<open>a\<close>, and the
  key \<^verbatim>\<open>b\<close>, which only the base has, reads \<^verbatim>\<open>{"x": 9}\<close> afterwards.
\<close>

theorem merge_dicts_aliased_base:
  "dict_get [(''a'', Dict [(''x'', Scalar (9::int))])] ''b'' = None
   \<and> read_tree 2 aliased_heap (Ref 0)
       = Some (Dict [(''a'', Dict [(''x'', Scalar 1)]), (''b'', Dict [(''x'', Scalar 1)])])
   \<and> read_tree 2 (merge_dicts aliased_heap 0 [(''a'', Dict [(''x'', Scalar 9)])]) (Ref 0)
       = Some (Dict [(''a'', Dict [(''x'', Scalar 9)]), (''b'', Dict [(''x'', Scalar 9)])])"
  by code_simp

section \<open>Selecting the sections of the scheme\<close>

lemma full_scheme_keys: "map fst full_scheme = [''logging'', ''kvmd'', ''ipmi'']"
  by (simp add: full_scheme_def)

lemma get_config_scheme_nonempty:
  "sections \<noteq> [] \<Longrightarrow>
   get_config_scheme sections = filter (\<lambda>(section, sub). section \<in> set sections) full_scheme"
  by (simp add: get_config_scheme_def)

text \<open>
  Claim C10. For a non-empty list of section names \<^verbatim>\<open>_get_config_scheme\<close> returns the
  top-level entries of the full scheme whose key is in the list, in the order of the
  scheme: its keys are those of \<^verbatim>\<open>logging\<close>, \<^verbatim>\<open>kvmd\<close>, \<^verbatim>\<open>ipmi\<close> that the list
  names, and looking a key up gives the entry of the full scheme when the list names
  the key and nothing otherwise. For the empty list it returns the full scheme, whose
  top-level keys are \<^verbatim>\<open>logging\<close>, \<^verbatim>\<open>kvmd\<close>, \<^verbatim>\<open>ipmi\<close>. Every entry returned is an entry
  of the full scheme: the nested sub-schemas are unchanged.
\<close>

theorem get_config_scheme_selects:
  "(sections \<noteq> [] \<longrightarrow>
      map fst (get_config_scheme sections)
        = filter (\<lambda>k. k \<in> set sections) [''logging'', ''kvmd'', ''ipmi'']
      \<and> dict_get (get_config_scheme sections) k
        = (if k \<in> set sections then dict_get full_scheme k else None))
   \<and> (sections = [] \<longrightarrow> get_config_scheme sections = full_scheme)
   \<and> map fst full_scheme = [''logging'', ''kvmd'', ''ipmi'']
   \<and> ((k, sub) \<in> set (get_config_scheme sections) \<longrightarrow> (k, sub) \<in> set full_scheme)"
proof -
  have "map fst (get_config_scheme sections)
          = filter (\<lambda>k. k \<in> set sections) [''logging'', ''kvmd'', ''ipmi'']"
    if "sections \<noteq> []"
    by (simp only: get_config_scheme_nonempty [OF that] keys_filter full_scheme_keys)
  moreover have "dict_get (get_config_scheme sections) k
          = (if k \<in> set sections then dict_get full_scheme k else None)"
    if "sections \<noteq> []"
    by (simp only: get_config_scheme_nonempty [OF that] dict_get_filter_keys)
  moreover have "get_config_scheme [] = full_scheme"
    by (simp add: get_config_scheme_def)
  moreover have "(k, sub) \<in> set full_scheme" if "(k, sub) \<in> set (get_config_scheme sections)"
    using that by (auto simp: get_config_scheme_def split: if_splits)
  ultimately show ?thesis
    using full_scheme_keys by blast
qed

text \<open>
  The theorem on the lists \<^verbatim>\<open>["kvmd"]\<close>, \<^verbatim>\<open>["ipmi", "kvmd"]\<close> (the order of the
  result is that of the scheme, not of the list) and \<^verbatim>\<open>[]\<close>.
\<close>

theorem get_config_scheme_selects_witness:
  "get_config_scheme [''kvmd''] = [(''kvmd'', Section scheme_kvmd)]
   \<and> map fst (get_config_scheme [''ipmi'', ''kvmd'']) = [''kvmd'', ''ipmi'']
   \<and> dict_get (get_config_scheme [''ipmi'', ''kvmd'']) ''ipmi'' = Some (Section scheme_ipmi)
   \<and> dict_get (get_config_scheme [''ipmi'', ''kvmd'']) ''logging'' = None
   \<and> get_config_scheme [] = full_scheme
   \<and> (''ipmi'', Section scheme_ipmi) \<in> set (get_config_scheme [''ipmi'', ''kvmd''])
   \<and> (''ipmi'', Section scheme_ipmi) \<in> set full_scheme"
  using get_config_scheme_selects [of "[''ipmi'', ''kvmd'']" "''ipmi''" "Section scheme_ipmi"]
        get_config_scheme_selects [of "[''ipmi'', ''kvmd'']" "''logging''"]
        get_config_scheme_selects [of "[]"]
  by (simp add: get_config_scheme_def full_scheme_def dict_get_def)

section \<open>Plugin types\<close>

lemma rindex_from_absent:
  "c \<notin> set s \<Longrightarrow> rindex_from s c i found = found"
  by (induction s arbitrary: i found) auto

lemma rindex_from_last:
  "c \<notin> set seg \<Longrightarrow> rindex_from (pre @ c # seg) c i found = Some (i + length pre)"
  by (induction pre arbitrary: i found) (auto simp: rindex_from_absent)

text \<open>
  Claim C7, as amended. For every plugin type whose module name contains a dot,
  \<^verbatim>\<open>get_plugin_name\<close> returns the text after the final dot: when the module name is
  \<open>pre\<close>, a dot, and a dot-free \<open>seg\<close>, the result is \<open>seg\<close>. For a module name
  without a dot it raises \<^verbatim>\<open>ValueError\<close>.
\<close>

theorem get_plugin_name_last_segment:
  "(cls_module cls = pre @ CHR ''.'' # seg \<and> CHR ''.'' \<notin> set seg \<longrightarrow>
      get_plugin_name cls = Inr seg)
   \<and> (CHR ''.'' \<notin> set (cls_module cls) \<longrightarrow>
        get_plugin_name cls = Inl (ValueError ''substring not found''))"
  by (auto simp: get_plugin_name_def rindex_def rindex_from_last rindex_from_absent)

text \<open>The theorem on a plugin of the package, on \<^verbatim>\<open>BasePlugin\<close> and on a top-level module.\<close>

theorem get_plugin_name_last_segment_witness:
  "get_plugin_name htpasswd_plugin = Inr ''htpasswd''
   \<and> get_plugin_name BasePlugin = Inr ''plugins''
   \<and> get_plugin_name \<lparr>cls_module = ''conftest'', cls_options = None\<rparr>
        = Inl (ValueError ''substring not found'')"
  using get_plugin_name_last_segment [of htpasswd_plugin "''kvmd.plugins.auth''" "''htpasswd''"]
        get_plugin_name_last_segment [of BasePlugin "''kvmd''" "''plugins''"]
        get_plugin_name_last_segment [of "\<lparr>cls_module = ''conftest'', cls_options = None\<rparr>"]
  by (simp add: BasePlugin_def htpasswd_plugin_def)

text \<open>
  Claim C7 as it is written fails for a plugin type defined in a top-level module: for
  a class of the module \<^verbatim>\<open>__main__\<close> no name is returned (the last path segment of
  \<^verbatim>\<open>__main__\<close> would be \<^verbatim>\<open>__main__\<close>), \<^verbatim>\<open>str.rindex\<close> raises.
\<close>

theorem get_plugin_name_no_dot:
  "get_plugin_name \<lparr>cls_module = ''__main__'', cls_options = None\<rparr>
     = Inl (ValueError ''substring not found'')
   \<and> get_plugin_name \<lparr>cls_module = ''__main__'', cls_options = None\<rparr> \<noteq> Inr ''__main__''"
  by (simp add: get_plugin_name_def rindex_def)

text \<open>
  Claim C8. \<^verbatim>\<open>get_plugin_options\<close> of the base type \<^verbatim>\<open>BasePlugin\<close> returns the empty
  mapping of options, both as the body of the base's method and as what calling the
  method on \<^verbatim>\<open>BasePlugin\<close> gives.
\<close>

theorem base_plugin_options_empty:
  "get_plugin_options BasePlugin = [] \<and> BasePlugin_get_plugin_options = []"
  by (simp add: get_plugin_options_def BasePlugin_def BasePlugin_get_plugin_options_def)

section \<open>Looking a plugin up\<close>

lemma get_plugin_class_not_found:
  "import_module (plugin_module_name sub name) = Inl (ModuleNotFoundError msg) \<Longrightarrow>
   get_plugin_class import_module sub name = Inl (UnknownPluginError (unknown_plugin_message sub name))"
  by (simp add: get_plugin_class_def)

lemma get_plugin_class_found:
  "import_module (plugin_module_name sub name) = Inr module \<Longrightarrow>
   dict_get module ''Plugin'' = Some cls \<Longrightarrow>
   get_plugin_class import_module sub name = Inr cls"
  by (simp add: get_plugin_class_def getattr_def)

text \<open>
  A module that is found and exports no \<^verbatim>\<open>Plugin\<close>: the \<^verbatim>\<open>AttributeError\<close> of
  \<^verbatim>\<open>getattr\<close> reaches the caller, for every subsystem and name.
\<close>

lemma get_plugin_class_malformed:
  "import_module (plugin_module_name sub name) = Inr module \<Longrightarrow>
   dict_get module ''Plugin'' = None \<Longrightarrow>
   get_plugin_class import_module sub name = Inl (AttributeError ''Plugin'')"
  by (simp add: get_plugin_class_def getattr_def)

text \<open>
  Claim C2 says that a module that is found but exports no \<^verbatim>\<open>Plugin\<close> gives
  \<^verbatim>\<open>UnknownPluginError\<close>. The code normalises only \<^verbatim>\<open>ModuleNotFoundError\<close>: in the
  example environment the lookup of \<^verbatim>\<open>auth/__init__\<close>, whose module imports and has no
  \<^verbatim>\<open>Plugin\<close>, raises \<^verbatim>\<open>AttributeError\<close>, while the lookup of a module that does not
  exist raises \<^verbatim>\<open>UnknownPluginError\<close>.
\<close>

theorem get_plugin_class_malformed_module:
  "get_plugin_class example_import ''auth'' ''__init__'' = Inl (AttributeError ''Plugin'')
   \<and> get_plugin_class example_import ''auth'' ''nosuch''
       = Inl (UnknownPluginError (''Unknown plugin 'auth/nosuch'' @ [CHR 0x27]))"
  by (simp add: get_plugin_class_def example_import_def plugin_module_name_def getattr_def
      dict_get_def unknown_plugin_message_def)

subsection \<open>The cache\<close>

lemma filter_absent_key:
  "map_of cache k = None \<Longrightarrow> filter (\<lambda>e. fst e \<noteq> k) cache = cache"
  by (induction cache) (auto split: if_splits)

lemma map_of_butlast_None:
  "map_of cache k = None \<Longrightarrow> map_of (butlast cache) k = None"
  by (induction cache) (auto split: if_splits)

text \<open>After a call that returned, the same call is a hit whatever the environment has become.\<close>

lemma cached_call_repeats:
  assumes "get_plugin_class_cached imp cache sub name = (Inr cls, cache')"
  shows "get_plugin_class_cached imp' cache' sub name = (Inr cls, cache')"
proof (cases "map_of cache (sub, name)")
  case None
  with assms obtain rest where c': "cache' = ((sub, name), cls) # rest"
    and rest: "map_of rest (sub, name) = None"
    by (auto simp: get_plugin_class_cached_def map_of_butlast_None split: sum.splits if_splits)
  show ?thesis
    unfolding c' by (simp add: get_plugin_class_cached_def filter_absent_key [OF rest])
next
  case (Some c)
  with assms have c': "cache' = ((sub, name), cls) # filter (\<lambda>e. fst e \<noteq> (sub, name)) cache"
    by (auto simp: get_plugin_class_cached_def)
  show ?thesis
    unfolding c' by (simp add: get_plugin_class_cached_def)
qed

text \<open>A call that returned a type has put the pair at the front of the cache.\<close>

lemma cached_call_returned:
  assumes "get_plugin_class_cached imp cache sub name = (Inr cls, cache')"
  shows "\<exists>rest. cache' = ((sub, name), cls) # rest"
  using assms
  by (auto simp: get_plugin_class_cached_def split: option.splits sum.splits)

lemma map_of_behind:
  "k \<notin> fst ` set pre \<Longrightarrow> map_of (pre @ (k, cls) # post) k = Some cls"
  by (induction pre) auto

lemma cached_entry_hit:
  assumes "(sub, name) \<notin> fst ` set pre"
  shows "fst (get_plugin_class_cached imp (pre @ ((sub, name), cls) # post) sub name) = Inr cls"
  unfolding get_plugin_class_cached_def map_of_behind [OF assms] by simp

lemma run_calls_snd:
  "snd (run_calls imp c ((sub, name) # calls))
     = snd (run_calls imp (snd (get_plugin_class_cached imp c sub name)) calls)"
  by (simp split: prod.splits)

text \<open>
  The entry of a pair \<open>k\<close> stays in the cache while the pairs looked up since are
  fewer than \<open>lru_maxsize\<close>: the entries in front of it belong to distinct pairs among
  those, so it is never the last entry of a full cache when another pair is stored.
\<close>

lemma cached_entry_step:
  assumes c: "c = pre @ (k, cls) # post"
    and pre: "distinct (map fst pre)" "fst ` set pre \<subseteq> D"
    and D: "finite D" "card D < lru_maxsize" "k \<notin> D"
    and call: "(sub, name) \<in> insert k D"
  shows "\<exists>pre' post'. snd (get_plugin_class_cached imp c sub name) = pre' @ (k, cls) # post'
           \<and> distinct (map fst pre') \<and> fst ` set pre' \<subseteq> D"
proof (cases "(sub, name) = k")
  case True
  from pre(2) D(3) have "k \<notin> fst ` set pre" by auto
  then have "map_of c k = Some cls" unfolding c by (rule map_of_behind)
  with True have "snd (get_plugin_class_cached imp c sub name)
      = [] @ (k, cls) # filter (\<lambda>e. fst e \<noteq> k) c"
    by (auto simp: get_plugin_class_cached_def)
  then show ?thesis by (intro exI [of _ "[]"] exI) auto
next
  case False
  let ?k' = "(sub, name)"
  from False call have k'D: "?k' \<in> D" by auto
  show ?thesis
  proof (cases "map_of c ?k'")
    case (Some v')
    let ?P = "\<lambda>e. fst e \<noteq> ?k'"
    from Some False have "snd (get_plugin_class_cached imp c sub name)
        = ((?k', v') # filter ?P pre) @ (k, cls) # filter ?P post"
      unfolding c by (auto simp: get_plugin_class_cached_def)
    moreover from pre(1) have "distinct (map fst ((?k', v') # filter ?P pre))"
      by (auto simp: distinct_map_filter)
    moreover from pre(2) k'D have "fst ` set ((?k', v') # filter ?P pre) \<subseteq> D"
      by auto
    ultimately show ?thesis by blast
  next
    case None
    then have fresh: "?k' \<notin> fst ` set c" by (simp add: map_of_eq_None_iff)
    then have fresh_pre: "?k' \<notin> fst ` set pre" unfolding c by auto
    show ?thesis
    proof (cases "get_plugin_class imp sub name")
      case (Inl e)
      with None have "snd (get_plugin_class_cached imp c sub name) = c"
        by (simp add: get_plugin_class_cached_def)
      then have "snd (get_plugin_class_cached imp c sub name) = pre @ (k, cls) # post"
        by (simp only: c)
      with pre show ?thesis by blast
    next
      case (Inr v)
      have kept: "(if length c \<ge> lru_maxsize then butlast c else c) = pre @ (k, cls) # post'"
        if "post' = (if length c \<ge> lru_maxsize then butlast post else post)" for post'
      proof (cases "length c \<ge> lru_maxsize")
        case False
        with that show ?thesis by (simp add: c)
      next
        case True
        have "post \<noteq> []"
        proof
          assume "post = []"
          with True have "length pre + 1 \<ge> lru_maxsize" by (simp add: c)
          moreover from pre(1) have "card (fst ` set pre) = length pre"
            using distinct_card [of "map fst pre"] by simp
          ultimately have "card (insert ?k' (fst ` set pre)) \<ge> lru_maxsize"
            using fresh_pre by simp
          moreover from pre(2) k'D have "insert ?k' (fst ` set pre) \<subseteq> D" by auto
          then have "card (insert ?k' (fst ` set pre)) \<le> card D"
            using D(1) by (rule card_mono [rotated])
          ultimately show False using D(2) by simp
        qed
        with True that show ?thesis by (simp add: c butlast_append)
      qed
      from None Inr have "snd (get_plugin_class_cached imp c sub name)
          = (?k', v) # (if length c \<ge> lru_maxsize then butlast c else c)"
        by (simp add: get_plugin_class_cached_def)
      with kept have "snd (get_plugin_class_cached imp c sub name)
          = ((?k', v) # pre) @ (k, cls) # (if length c \<ge> lru_maxsize then butlast post else post)"
        by simp
      moreover from pre(1) fresh_pre have "distinct (map fst ((?k', v) # pre))" by simp
      moreover from pre(2) k'D have "fst ` set ((?k', v) # pre) \<subseteq> D" by auto
      ultimately show ?thesis by blast
    qed
  qed
qed

lemma cached_entry_run:
  assumes D: "finite D" "card D < lru_maxsize" "k \<notin> D"
  shows "c = pre @ (k, cls) # post \<Longrightarrow> distinct (map fst pre) \<Longrightarrow> fst ` set pre \<subseteq> D \<Longrightarrow>
         set calls \<subseteq> insert k D \<Longrightarrow>
         \<exists>pre' post'. snd (run_calls imp c calls) = pre' @ (k, cls) # post'
           \<and> distinct (map fst pre') \<and> fst ` set pre' \<subseteq> D"
proof (induction calls arbitrary: c pre post)
  case Nil
  then show ?case by auto
next
  case (Cons call calls)
  obtain sub name where call: "call = (sub, name)" by (cases call)
  with Cons.prems(4) have "(sub, name) \<in> insert k D" and rest: "set calls \<subseteq> insert k D"
    by auto
  from cached_entry_step [OF Cons.prems(1,2,3) D this(1), of imp]
  obtain pre' post' where
    step: "snd (get_plugin_class_cached imp c sub name) = pre' @ (k, cls) # post'"
    and pre': "distinct (map fst pre')" "fst ` set pre' \<subseteq> D"
    by blast
  from Cons.IH [OF step pre' rest]
  show ?case
    unfolding call run_calls_snd step .
qed

lemma cached_entry_kept:
  assumes first: "get_plugin_class_cached imp cache sub name = (Inr cls, cache1)"
    and few: "card (set calls - {(sub, name)}) < lru_maxsize"
  shows "fst (get_plugin_class_cached imp' (snd (run_calls imp1 cache1 calls)) sub name) = Inr cls"
proof -
  let ?k = "(sub, name)"
  let ?D = "set calls - {?k}"
  from cached_call_returned [OF first] obtain rest where
    c1: "cache1 = [] @ (?k, cls) # rest" by auto
  have "\<exists>pre' post'. snd (run_calls imp1 cache1 calls) = pre' @ (?k, cls) # post'
           \<and> distinct (map fst pre') \<and> fst ` set pre' \<subseteq> ?D"
    by (rule cached_entry_run [OF _ few _ c1]) auto
  then obtain pre' post' where
    run: "snd (run_calls imp1 cache1 calls) = pre' @ (?k, cls) # post'"
    and "fst ` set pre' \<subseteq> ?D"
    by blast
  then have "?k \<notin> fst ` set pre'" by auto
  from cached_entry_hit [OF this, of imp' cls post'] show ?thesis
    unfolding run .
qed

lemma cache_agrees_lookup:
  "cache_agrees imp cache \<Longrightarrow> map_of cache (sub, name) = Some cls \<Longrightarrow>
   get_plugin_class imp sub name = Inr cls"
  by (induction cache) (auto simp: cache_agrees_def split: if_splits)

lemma cache_agrees_butlast:
  "cache_agrees imp cache \<Longrightarrow> cache_agrees imp (butlast cache)"
  by (induction cache) (auto simp: cache_agrees_def)

text \<open>
  In an environment that does not change, the cache is not observable: a call through
  it returns what the function returns, and leaves a cache that agrees again.
\<close>

lemma cached_call_transparent:
  assumes "cache_agrees imp cache"
  shows "fst (get_plugin_class_cached imp cache sub name) = get_plugin_class imp sub name"
    and "cache_agrees imp (snd (get_plugin_class_cached imp cache sub name))"
proof -
  show "fst (get_plugin_class_cached imp cache sub name) = get_plugin_class imp sub name"
    using cache_agrees_lookup [OF assms, of sub name]
    by (auto simp: get_plugin_class_cached_def split: option.splits sum.splits)
  have "cache_agrees imp (filter P cache)" for P
    using assms by (simp add: cache_agrees_def list_all_iff)
  moreover note cache_agrees_butlast [OF assms] assms cache_agrees_lookup [OF assms, of sub name]
  ultimately show "cache_agrees imp (snd (get_plugin_class_cached imp cache sub name))"
    by (auto simp: get_plugin_class_cached_def cache_agrees_def split: option.splits sum.splits)
qed

lemma run_calls_transparent:
  "cache_agrees imp cache \<Longrightarrow>
   fst (run_calls imp cache calls) = map (\<lambda>(sub, name). get_plugin_class imp sub name) calls"
proof (induction calls arbitrary: cache)
  case Nil
  then show ?case by simp
next
  case (Cons call calls)
  obtain sub name where call: "call = (sub, name)" by (cases call)
  obtain r cache' where step: "get_plugin_class_cached imp cache sub name = (r, cache')"
    by (cases "get_plugin_class_cached imp cache sub name")
  from cached_call_transparent [OF Cons.prems, of sub name] step
  have r: "r = get_plugin_class imp sub name" and agrees: "cache_agrees imp cache'"
    by simp_all
  from Cons.IH [OF agrees] show ?case
    by (auto simp: call step r split: prod.splits)
qed

lemma cache_miss_unregistered:
  assumes "cache_agrees imp cache"
    and "imp (plugin_module_name sub name) = Inl (ModuleNotFoundError msg)"
  shows "get_plugin_class_cached imp cache sub name =
           (Inl (UnknownPluginError (unknown_plugin_message sub name)), cache)"
proof -
  have nf: "get_plugin_class imp sub name = Inl (UnknownPluginError (unknown_plugin_message sub name))"
    using assms(2) by (rule get_plugin_class_not_found)
  have "map_of cache (sub, name) = None"
    using cache_agrees_lookup [OF assms(1), of sub name] nf
    by (cases "map_of cache (sub, name)") auto
  then show ?thesis
    by (simp add: get_plugin_class_cached_def nf)
qed

text \<open>
  A run of lookups of distinct pairs that are not in the cache and all return a type:
  the cache holds the last \<open>lru_maxsize\<close> results, most recent first.
\<close>

lemma take_append_take: "take n (xs @ take n ys) = take n (xs @ ys)"
  by (simp add: min_def)

lemma run_calls_fresh:
  "distinct calls \<Longrightarrow> \<forall>k\<in>set calls. map_of cache k = None \<Longrightarrow>
   \<forall>k\<in>set calls. get_plugin_class imp (fst k) (snd k) = Inr (f k) \<Longrightarrow>
   length cache \<le> lru_maxsize \<Longrightarrow>
   snd (run_calls imp cache calls) = take lru_maxsize (rev (map (\<lambda>k. (k, f k)) calls) @ cache)"
proof (induction calls arbitrary: cache)
  case Nil
  then show ?case by simp
next
  case (Cons call calls)
  obtain sub name where call: "call = (sub, name)" by (cases call)
  let ?c1 = "take lru_maxsize ((call, f call) # cache)"
  from Cons.prems(2,3,4) have step: "get_plugin_class_cached imp cache sub name = (Inr (f call), ?c1)"
    by (cases "length cache = lru_maxsize")
       (auto simp: call get_plugin_class_cached_def lru_maxsize_def butlast_conv_take)
  have "\<forall>k\<in>set calls. map_of ?c1 k = None"
  proof
    fix k assume k: "k \<in> set calls"
    with Cons.prems(1,2) have "k \<noteq> call" "k \<notin> fst ` set cache"
      by (auto simp: map_of_eq_None_iff)
    then have "k \<notin> fst ` set ((call, f call) # cache)" by auto
    moreover have "set ?c1 \<subseteq> set ((call, f call) # cache)" by (rule set_take_subset)
    ultimately have "k \<notin> fst ` set ?c1" by blast
    then show "map_of ?c1 k = None" by (simp add: map_of_eq_None_iff)
  qed
  moreover from Cons.prems have "distinct calls"
    "\<forall>k\<in>set calls. get_plugin_class imp (fst k) (snd k) = Inr (f k)" by auto
  moreover have "length ?c1 \<le> lru_maxsize" by simp
  ultimately have ih: "snd (run_calls imp ?c1 calls)
      = take lru_maxsize (rev (map (\<lambda>k. (k, f k)) calls) @ ?c1)"
    by (intro Cons.IH)
  have "snd (run_calls imp cache (call # calls)) = snd (run_calls imp ?c1 calls)"
    unfolding call run_calls_snd step [unfolded call] by simp
  also note ih
  also have "take lru_maxsize (rev (map (\<lambda>k. (k, f k)) calls) @ ?c1)
      = take lru_maxsize (rev (map (\<lambda>k. (k, f k)) calls) @ (call, f call) # cache)"
    by (rule take_append_take)
  also have "\<dots> = take lru_maxsize (rev (map (\<lambda>k. (k, f k)) (call # calls)) @ cache)"
    by simp
  finally show ?case .
qed

text \<open>The pairs of \<open>other_pairs\<close> are distinct and none is a pair of the subsystem \<^verbatim>\<open>auth\<close>.\<close>

lemma other_pairs_distinct: "distinct (other_pairs n)"
proof -
  have "inj_on (\<lambda>i. (''hid'', replicate (Suc i) (CHR ''x''))) (set [0..<n])"
    by (rule inj_onI) (auto dest: arg_cong [where f = length])
  then show ?thesis
    unfolding other_pairs_def by (simp add: distinct_map)
qed

lemma other_pairs_length: "length (other_pairs n) = n"
  by (simp add: other_pairs_def)

lemma other_pairs_other: "(''auth'', name) \<notin> set (other_pairs n)"
  by (auto simp: other_pairs_def)

lemma import_anything_class:
  "get_plugin_class import_anything sub name
     = Inr \<lparr>cls_module = plugin_module_name sub name, cls_options = None\<rparr>"
  by (simp add: get_plugin_class_def import_anything_def getattr_def dict_get_def)

lemma first_pam:
  "get_plugin_class_cached example_import [] ''auth'' ''pam''
     = (Inr pam_plugin, [((''auth'', ''pam''), pam_plugin)])"
  by (simp add: get_plugin_class_cached_def get_plugin_class_def example_import_def
      plugin_module_name_def getattr_def dict_get_def lru_maxsize_def)

text \<open>After 128 lookups of other pairs the cache has no entry for \<^verbatim>\<open>auth/pam\<close>.\<close>

lemma evicted:
  "map_of (snd (run_calls import_anything [((''auth'', ''pam''), pam_plugin)] (other_pairs 128)))
     (''auth'', ''pam'') = None"
proof -
  let ?g = "\<lambda>k. (k, \<lparr>cls_module = plugin_module_name (fst k) (snd k), cls_options = None\<rparr>)"
  have "snd (run_calls import_anything [((''auth'', ''pam''), pam_plugin)] (other_pairs 128))
      = take lru_maxsize (rev (map ?g (other_pairs 128)) @ [((''auth'', ''pam''), pam_plugin)])"
    using other_pairs_other [of "''pam''" 128]
    by (intro run_calls_fresh other_pairs_distinct)
       (auto simp: import_anything_class lru_maxsize_def)
  also have "\<dots> = rev (map ?g (other_pairs 128))"
    by (simp add: lru_maxsize_def other_pairs_length)
  finally show ?thesis
    using other_pairs_other [of "''pam''" 128]
    by (simp add: map_of_eq_None_iff image_image)
qed

text \<open>
  Claim C3, as amended. When a call of \<^verbatim>\<open>get_plugin_class\<close> for a pair returned a
  type, a later call for the same pair returns the same type from the cache, whatever
  the environment would import by then, provided that the calls in between were for
  fewer than 128 pairs other than this one (128 is the size of the cache
  \<^verbatim>\<open>functools.lru_cache()\<close> keeps). In an environment that does not change, starting
  from a cache that agrees with it (the empty cache does), every call of a run returns
  what the lookup of its pair returns there, so two calls for one pair return the same
  result however many calls lie between them. A pair whose module is not found raises
  \<^verbatim>\<open>UnknownPluginError\<close> with the message \<^verbatim>\<open>Unknown plugin 'sub/name'\<close>, which
  names that pair, and stores nothing.
\<close>

theorem get_plugin_class_memoized:
  "(get_plugin_class_cached imp cache sub name = (Inr cls, cache1)
      \<and> card (set calls - {(sub, name)}) < lru_maxsize \<longrightarrow>
      fst (get_plugin_class_cached imp' (snd (run_calls imp1 cache1 calls)) sub name) = Inr cls)
   \<and> (cache_agrees imp cache \<longrightarrow>
        fst (run_calls imp cache calls) = map (\<lambda>(sub, name). get_plugin_class imp sub name) calls)
   \<and> (cache_agrees imp cache \<and> imp (plugin_module_name sub name) = Inl (ModuleNotFoundError msg) \<longrightarrow>
        get_plugin_class_cached imp cache sub name =
          (Inl (UnknownPluginError (''Unknown plugin '' @ [CHR 0x27] @ sub @ ''/'' @ name @ [CHR 0x27])),
           cache))"
  using cached_entry_kept [of imp cache sub name cls cache1 calls imp' imp1]
        run_calls_transparent [of imp cache calls]
        cache_miss_unregistered [of imp cache sub name msg]
  by (simp add: unknown_plugin_message_def)

text \<open>
  The theorem in the example environment: a first call for \<^verbatim>\<open>auth/pam\<close> from the empty
  cache, then 127 lookups of other pairs, and a call for \<^verbatim>\<open>auth/pam\<close> after every
  module has disappeared; a run of three calls; and a pair that is not registered.
\<close>

theorem get_plugin_class_memoized_witness:
  "get_plugin_class_cached example_import [] ''auth'' ''pam''
     = (Inr pam_plugin, [((''auth'', ''pam''), pam_plugin)])
   \<and> card (set (other_pairs 127) - {(''auth'', ''pam'')}) < lru_maxsize
   \<and> fst (get_plugin_class_cached import_nothing
            (snd (run_calls import_anything [((''auth'', ''pam''), pam_plugin)] (other_pairs 127)))
            ''auth'' ''pam'')
       = Inr pam_plugin
   \<and> cache_agrees example_import []
   \<and> fst (run_calls example_import [] [(''auth'', ''pam''), (''auth'', ''nosuch''), (''auth'', ''pam'')])
     = [Inr pam_plugin,
        Inl (UnknownPluginError (''Unknown plugin 'auth/nosuch'' @ [CHR 0x27])),
        Inr pam_plugin]
   \<and> example_import (plugin_module_name ''auth'' ''nosuch'')
     = Inl (ModuleNotFoundError ''kvmd.plugins.auth.nosuch'')
   \<and> get_plugin_class_cached example_import [] ''auth'' ''nosuch''
     = (Inl (UnknownPluginError (''Unknown plugin 'auth/nosuch'' @ [CHR 0x27])), [])"
proof -
  note first = first_pam
  have "set (other_pairs 127) - {(''auth'', ''pam'')} = set (other_pairs 127)"
    using other_pairs_other [of "''pam''" 127] by simp
  then have few: "card (set (other_pairs 127) - {(''auth'', ''pam'')}) < lru_maxsize"
    using distinct_card [OF other_pairs_distinct [of 127]]
    by (simp add: other_pairs_length lru_maxsize_def)
  have agrees: "cache_agrees example_import ([] :: plugin_class lru_cache)"
    by (simp add: cache_agrees_def)
  have nf: "example_import (plugin_module_name ''auth'' ''nosuch'')
              = Inl (ModuleNotFoundError ''kvmd.plugins.auth.nosuch'')"
    by (simp add: example_import_def plugin_module_name_def)
  have calls: "map (\<lambda>(sub, name). get_plugin_class example_import sub name)
                 [(''auth'', ''pam''), (''auth'', ''nosuch''), (''auth'', ''pam'')]
               = [Inr pam_plugin,
                  Inl (UnknownPluginError (''Unknown plugin 'auth/nosuch'' @ [CHR 0x27])),
                  Inr pam_plugin]"
    by (simp add: get_plugin_class_def example_import_def plugin_module_name_def getattr_def
        dict_get_def unknown_plugin_message_def)
  from get_plugin_class_memoized
         [where imp = example_import and cache = "[]" and sub = "''auth''" and name = "''pam''"
            and cls = pam_plugin and ?cache1.0 = "[((''auth'', ''pam''), pam_plugin)]"
            and calls = "other_pairs 127" and imp' = import_nothing and ?imp1.0 = import_anything
            and msg = "[]",
          THEN conjunct1, THEN mp, OF conjI [OF first few]]
  have kept: "fst (get_plugin_class_cached import_nothing
            (snd (run_calls import_anything [((''auth'', ''pam''), pam_plugin)] (other_pairs 127)))
            ''auth'' ''pam'') = Inr pam_plugin" .
  from get_plugin_class_memoized
         [where imp = example_import and cache = "[]" and sub = "''auth''" and name = "''nosuch''"
            and cls = pam_plugin and ?cache1.0 = "[]"
            and calls = "[(''auth'', ''pam''), (''auth'', ''nosuch''), (''auth'', ''pam'')]"
            and imp' = example_import and ?imp1.0 = example_import
            and msg = "''kvmd.plugins.auth.nosuch''",
          THEN conjunct2, THEN conjunct1, THEN mp, OF agrees]
  have run: "fst (run_calls example_import []
                [(''auth'', ''pam''), (''auth'', ''nosuch''), (''auth'', ''pam'')])
     = [Inr pam_plugin,
        Inl (UnknownPluginError (''Unknown plugin 'auth/nosuch'' @ [CHR 0x27])),
        Inr pam_plugin]"
    by (simp only: calls)
  from get_plugin_class_memoized
         [where imp = example_import and cache = "[]" and sub = "''auth''" and name = "''nosuch''"
            and cls = pam_plugin and ?cache1.0 = "[]"
            and calls = "[]"
            and imp' = example_import and ?imp1.0 = example_import
            and msg = "''kvmd.plugins.auth.nosuch''",
          THEN conjunct2, THEN conjunct2, THEN mp, OF conjI [OF agrees nf]]
  have unregistered: "get_plugin_class_cached example_import [] ''auth'' ''nosuch''
     = (Inl (UnknownPluginError (''Unknown plugin 'auth/nosuch'' @ [CHR 0x27])), [])"
    by simp
  from first few kept agrees run nf unregistered show ?thesis
    by (intro conjI)
qed

text \<open>
  Claim C3 as it is written, memoized for the process lifetime, fails after 128
  lookups of other pairs: the entry of \<^verbatim>\<open>auth/pam\<close> has left the cache, the next call
  for the pair runs the lookup again, and where the module has disappeared in the
  meantime it raises \<^verbatim>\<open>UnknownPluginError\<close> instead of returning the type the first
  call returned.
\<close>

theorem get_plugin_class_evicted:
  "fst (get_plugin_class_cached example_import [] ''auth'' ''pam'') = Inr pam_plugin
   \<and> map_of (snd (run_calls import_anything
                     (snd (get_plugin_class_cached example_import [] ''auth'' ''pam''))
                     (other_pairs 128)))
        (''auth'', ''pam'') = None
   \<and> fst (get_plugin_class_cached import_nothing
            (snd (run_calls import_anything
                    (snd (get_plugin_class_cached example_import [] ''auth'' ''pam''))
                    (other_pairs 128)))
            ''auth'' ''pam'')
       = Inl (UnknownPluginError (''Unknown plugin 'auth/pam'' @ [CHR 0x27]))"
  unfolding first_pam
  by (simp add: evicted get_plugin_class_cached_def get_plugin_class_def import_nothing_def
      unknown_plugin_message_def)

section \<open>Extending the scheme between the passes\<close>

lemma kvmd_selected:
  "''kvmd'' \<in> set sections \<Longrightarrow>
   dict_get (get_config_scheme sections) ''kvmd'' = Some (Section scheme_kvmd)"
proof -
  assume k: "''kvmd'' \<in> set sections"
  then have "sections \<noteq> []" by auto
  then have "get_config_scheme sections
               = filter (\<lambda>(section, sub). section \<in> set sections) full_scheme"
    by (rule get_config_scheme_nonempty)
  then show ?thesis
    using k by (simp only: dict_get_filter_keys) (simp add: full_scheme_def dict_get_def)
qed

lemma auth_in_kvmd: "dict_get scheme_kvmd ''auth'' = Some (Section scheme_kvmd_auth)"
  by (simp add: scheme_kvmd_def dict_get_def)

text \<open>
  The literal has no entry at \<^verbatim>\<open>kvmd/auth/internal\<close> or \<^verbatim>\<open>kvmd/auth/external\<close>: the
  source keeps both as comments (\<^verbatim>\<open># "internal": {}\<close>, \<^verbatim>\<open># "external": {}\<close>).
\<close>

lemma auth_slots_free:
  "dict_get scheme_kvmd_auth ''internal'' = None"
  "dict_get scheme_kvmd_auth ''external'' = None"
  by (simp_all add: scheme_kvmd_auth_def dict_get_def)

lemma scheme_set3_sections:
  "dict_get sch k1 = Some (Section s1) \<Longrightarrow> dict_get s1 k2 = Some (Section s2) \<Longrightarrow>
   scheme_set3 sch k1 k2 k3 v =
     Inr (dict_set k1 (Section (dict_set k2 (Section (dict_set k3 v s2)) s1)) sch)"
  by (simp add: scheme_set3_def)

lemma auth_replaced_dict_set:
  assumes "dict_get base ''kvmd'' = Some (Section scheme_kvmd)"
  shows "auth_replaced base
           (dict_set ''kvmd'' (Section (dict_set ''auth'' (Section auth') scheme_kvmd)) base) auth'"
  using assms auth_in_kvmd
  by (simp add: auth_replaced_def dict_get_dict_set dict_set_others
      dict_set_present_keys [of base "''kvmd''"] dict_set_present_keys [of scheme_kvmd "''auth''"])

lemma extend_scheme_internal_only:
  assumes "''kvmd'' \<in> set sections"
    and "get_auth_service_class w (internal_type w config) = Inr internal_cls"
    and "external_type w config = []"
  shows "extend_scheme w config (get_config_scheme sections) =
           Inr (dict_set ''kvmd''
                  (Section (dict_set ''auth''
                     (Section (scheme_kvmd_auth @
                        [(''internal'', Section (get_plugin_options internal_cls))]))
                     scheme_kvmd))
                  (get_config_scheme sections))"
  using assms(2,3)
  by (simp add: extend_scheme_def scheme_set3_sections [OF kvmd_selected [OF assms(1)] auth_in_kvmd]
      dict_set_absent [OF auth_slots_free(1)])

lemma extend_scheme_both:
  assumes "''kvmd'' \<in> set sections"
    and "get_auth_service_class w (internal_type w config) = Inr internal_cls"
    and "external_type w config \<noteq> []"
    and "get_auth_service_class w (external_type w config) = Inr external_cls"
  shows "extend_scheme w config (get_config_scheme sections) =
           Inr (dict_set ''kvmd''
                  (Section (dict_set ''auth''
                     (Section (scheme_kvmd_auth @
                        [(''internal'', Section (get_plugin_options internal_cls)),
                         (''external'', Section (get_plugin_options external_cls))]))
                     scheme_kvmd))
                  (get_config_scheme sections))"
proof -
  let ?base = "get_config_scheme sections"
  let ?auth1 = "scheme_kvmd_auth @ [(''internal'', Section (get_plugin_options internal_cls))]"
  let ?kv1 = "dict_set ''auth'' (Section ?auth1) scheme_kvmd"
  let ?S1 = "dict_set ''kvmd'' (Section ?kv1) ?base"
  have S1: "scheme_set3 ?base ''kvmd'' ''auth'' ''internal''
              (Section (get_plugin_options internal_cls)) = Inr ?S1"
    by (simp add: scheme_set3_sections [OF kvmd_selected [OF assms(1)] auth_in_kvmd]
        dict_set_absent [OF auth_slots_free(1)])
  have ext_free: "dict_get ?auth1 ''external'' = None"
    using auth_slots_free(2) by (simp add: dict_get_def)
  have "dict_get ?S1 ''kvmd'' = Some (Section ?kv1)" "dict_get ?kv1 ''auth'' = Some (Section ?auth1)"
    by (simp_all add: dict_get_dict_set)
  then have S2: "scheme_set3 ?S1 ''kvmd'' ''auth'' ''external''
              (Section (get_plugin_options external_cls)) =
            Inr (dict_set ''kvmd''
                  (Section (dict_set ''auth''
                     (Section (?auth1 @ [(''external'', Section (get_plugin_options external_cls))]))
                     scheme_kvmd))
                  ?base)"
    by (simp add: scheme_set3_sections dict_set_absent [OF ext_free] dict_set_twice)
  show ?thesis
    using assms(2,3,4) by (simp add: extend_scheme_def S1 S2)
qed

text \<open>
  Claim C4, as amended. In the two-phase orchestration (\<^verbatim>\<open>"kvmd"\<close> is among the
  sections) the registry is asked for the internal selector whatever its value, also
  when it is empty. When that lookup fails, extending the scheme fails with the same
  exception and the body of \<^verbatim>\<open>_init_config\<close> ends with it before pass 2. When it
  succeeds, the options of the internal plugin are spliced into the scheme at
  \<^verbatim>\<open>kvmd/auth/internal\<close>. When the resolved \<^verbatim>\<open>external_type\<close> is empty nothing else is
  spliced: the scheme of pass 2 is the base scheme with only \<^verbatim>\<open>kvmd/auth\<close> changed,
  that section being the one of the literal followed by the entry \<^verbatim>\<open>internal\<close>; the
  fragment at the slot \<^verbatim>\<open>kvmd/auth/external\<close> stays empty (the slot has no entry at
  all), so pass 2 has nothing to validate there. When \<^verbatim>\<open>external_type\<close> is not empty
  and the registry resolves it, the options of the external plugin are spliced at
  \<^verbatim>\<open>kvmd/auth/external\<close> as well.
\<close>

theorem extend_scheme_splices:
  assumes "''kvmd'' \<in> set sections"
  shows "(get_auth_service_class w (internal_type w config) = Inl e \<longrightarrow>
            extend_scheme w config (get_config_scheme sections) = Inl e
          \<and> (build_raw_from_options w override_options = Inr overrides \<and>
             make_config w (merge_trees raw_config overrides) (get_config_scheme sections)
               = Inr config \<longrightarrow>
             init_config_body w raw_config (get_config_scheme sections) sections override_options
               = Inl e))
       \<and> (get_auth_service_class w (internal_type w config) = Inr internal_cls \<longrightarrow>
            (external_type w config = [] \<longrightarrow>
               (\<exists>S. extend_scheme w config (get_config_scheme sections) = Inr S
                  \<and> auth_replaced (get_config_scheme sections) S
                      (scheme_kvmd_auth @ [(''internal'', Section (get_plugin_options internal_cls))])
                  \<and> scheme_lookup S [''kvmd'', ''auth'', ''internal'']
                      = Some (Section (get_plugin_options internal_cls))
                  \<and> scheme_lookup S [''kvmd'', ''auth'', ''external''] = None
                  \<and> slot_fragment S [''kvmd'', ''auth'', ''external''] = []))
          \<and> (external_type w config \<noteq> [] \<and>
             get_auth_service_class w (external_type w config) = Inr external_cls \<longrightarrow>
               (\<exists>S. extend_scheme w config (get_config_scheme sections) = Inr S
                  \<and> auth_replaced (get_config_scheme sections) S
                      (scheme_kvmd_auth @
                         [(''internal'', Section (get_plugin_options internal_cls)),
                          (''external'', Section (get_plugin_options external_cls))])
                  \<and> scheme_lookup S [''kvmd'', ''auth'', ''internal'']
                      = Some (Section (get_plugin_options internal_cls))
                  \<and> scheme_lookup S [''kvmd'', ''auth'', ''external'']
                      = Some (Section (get_plugin_options external_cls)))))"
proof -
  have failed: "extend_scheme w config (get_config_scheme sections) = Inl e"
    if "get_auth_service_class w (internal_type w config) = Inl e"
    using that by (simp add: extend_scheme_def)
  have ended: "init_config_body w raw_config (get_config_scheme sections) sections override_options
                 = Inl e"
    if "get_auth_service_class w (internal_type w config) = Inl e"
       "build_raw_from_options w override_options = Inr overrides"
       "make_config w (merge_trees raw_config overrides) (get_config_scheme sections) = Inr config"
    using assms that(2,3) failed [OF that(1)]
    by (simp add: init_config_body_def Let_def)
  have internal: "\<exists>S. extend_scheme w config (get_config_scheme sections) = Inr S
               \<and> auth_replaced (get_config_scheme sections) S
                   (scheme_kvmd_auth @ [(''internal'', Section (get_plugin_options internal_cls))])
               \<and> scheme_lookup S [''kvmd'', ''auth'', ''internal'']
                   = Some (Section (get_plugin_options internal_cls))
               \<and> scheme_lookup S [''kvmd'', ''auth'', ''external''] = None
               \<and> slot_fragment S [''kvmd'', ''auth'', ''external''] = []"
    if i: "get_auth_service_class w (internal_type w config) = Inr internal_cls"
      and e: "external_type w config = []"
    unfolding extend_scheme_internal_only [OF assms i e]
    using auth_replaced_dict_set [OF kvmd_selected [OF assms]] auth_slots_free
    by (simp add: slot_fragment_def dict_get_dict_set dict_get_append dict_get_Cons dict_get_Nil)
  have both: "\<exists>S. extend_scheme w config (get_config_scheme sections) = Inr S
               \<and> auth_replaced (get_config_scheme sections) S
                   (scheme_kvmd_auth @
                      [(''internal'', Section (get_plugin_options internal_cls)),
                       (''external'', Section (get_plugin_options external_cls))])
               \<and> scheme_lookup S [''kvmd'', ''auth'', ''internal'']
                   = Some (Section (get_plugin_options internal_cls))
               \<and> scheme_lookup S [''kvmd'', ''auth'', ''external'']
                   = Some (Section (get_plugin_options external_cls))"
    if i: "get_auth_service_class w (internal_type w config) = Inr internal_cls"
      and e: "external_type w config \<noteq> []"
             "get_auth_service_class w (external_type w config) = Inr external_cls"
    unfolding extend_scheme_both [OF assms i e]
    using auth_replaced_dict_set [OF kvmd_selected [OF assms]] auth_slots_free
    by (simp add: dict_get_dict_set dict_get_append dict_get_Cons dict_get_Nil)
  from failed ended internal both show ?thesis
    by blast
qed

text \<open>
  The theorem in the example environment, for a configuration whose external selector
  is empty, for one that selects \<^verbatim>\<open>pam\<close> (a plugin that inherits the empty options of
  the base) and for one whose internal selector names no plugin; and two runs of
  \<^verbatim>\<open>_init_config\<close>: with the external selector overridden to the empty string the
  returned configuration has nothing at \<^verbatim>\<open>kvmd/auth/external\<close>, with \<^verbatim>\<open>pam\<close> it has the
  empty section of that plugin.
\<close>

theorem extend_scheme_splices_witness:
  "''kvmd'' \<in> set [''kvmd'']
   \<and> get_auth_service_class example_world
        (internal_type example_world (example_selectors ''htpasswd'' [])) = Inr htpasswd_plugin
   \<and> external_type example_world (example_selectors ''htpasswd'' []) = []
   \<and> extend_scheme example_world (example_selectors ''htpasswd'' []) (get_config_scheme [''kvmd''])
       = Inr [(''kvmd'', Section
                [(''server'', Section scheme_kvmd_server),
                 (''auth'', Section (scheme_kvmd_auth @
                    [(''internal'', Section [(''file'', Option (Scalar (SStr ''/etc/kvmd/htpasswd''))
                        (Some valid_abs_path_exists) None (Some ''path''))])])),
                 (''info'', Section scheme_kvmd_info),
                 (''hid'', Section scheme_kvmd_hid),
                 (''atx'', Section scheme_kvmd_atx),
                 (''msd'', Section scheme_kvmd_msd),
                 (''streamer'', Section scheme_kvmd_streamer)])]
   \<and> external_type example_world (example_selectors ''htpasswd'' ''pam'') = ''pam''
   \<and> get_auth_service_class example_world ''pam'' = Inr pam_plugin
   \<and> extend_scheme example_world (example_selectors ''htpasswd'' ''pam'') (get_config_scheme [''kvmd''])
       = Inr [(''kvmd'', Section
                [(''server'', Section scheme_kvmd_server),
                 (''auth'', Section (scheme_kvmd_auth @
                    [(''internal'', Section [(''file'', Option (Scalar (SStr ''/etc/kvmd/htpasswd''))
                        (Some valid_abs_path_exists) None (Some ''path''))]),
                     (''external'', Section [])])),
                 (''info'', Section scheme_kvmd_info),
                 (''hid'', Section scheme_kvmd_hid),
                 (''atx'', Section scheme_kvmd_atx),
                 (''msd'', Section scheme_kvmd_msd),
                 (''streamer'', Section scheme_kvmd_streamer)])]
   \<and> get_auth_service_class example_world
        (internal_type example_world (example_selectors ''nosuch'' []))
       = Inl (UnknownPluginError (''Unknown plugin 'auth/nosuch'' @ [CHR 0x27]))
   \<and> extend_scheme example_world (example_selectors ''nosuch'' []) (get_config_scheme [''kvmd''])
       = Inl (UnknownPluginError (''Unknown plugin 'auth/nosuch'' @ [CHR 0x27]))
   \<and> returned_at
        (init_config example_world ''/etc/kvmd/main.yaml'' [''kvmd''] [''kvmd/auth/external_type=''])
        [''kvmd'', ''auth'', ''external''] = Inr None
   \<and> returned_at (init_config example_world ''/etc/kvmd/main.yaml'' [''kvmd''] [])
        [''kvmd'', ''auth'', ''external''] = Inr (Some (Resolved []))"
proof -
  have none: "returned_at
        (init_config example_world ''/etc/kvmd/main.yaml'' [''kvmd''] [''kvmd/auth/external_type=''])
        [''kvmd'', ''auth'', ''external''] = Inr None"
    by code_simp
  have pam: "returned_at (init_config example_world ''/etc/kvmd/main.yaml'' [''kvmd''] [])
        [''kvmd'', ''auth'', ''external''] = Inr (Some (Resolved []))"
    by code_simp
  have sel: "internal_type example_world (example_selectors i e) = i"
       "external_type example_world (example_selectors i e) = e" for i e
    by (simp_all add: example_world_def example_selectors_def resolved_string_def dict_get_def)
  have cls: "get_auth_service_class example_world ''htpasswd'' = Inr htpasswd_plugin"
       "get_auth_service_class example_world ''pam'' = Inr pam_plugin"
       "get_auth_service_class example_world ''nosuch''
          = Inl (UnknownPluginError (''Unknown plugin 'auth/nosuch'' @ [CHR 0x27]))"
    by (simp_all add: example_world_def get_plugin_class_def example_import_def
        plugin_module_name_def getattr_def dict_get_def unknown_plugin_message_def)
  have base: "get_config_scheme [''kvmd''] = [(''kvmd'', Section scheme_kvmd)]"
    by (simp add: get_config_scheme_def full_scheme_def)
  have kvmd: "''kvmd'' \<in> set [''kvmd'']" by simp
  note inst = extend_scheme_splices
    [OF kvmd, where w = example_world and override_options = "[]" and overrides = "[]"
       and raw_config = "[]" and internal_cls = htpasswd_plugin and external_cls = pam_plugin]
  from inst [where config = "example_selectors ''nosuch'' []"
               and e = "UnknownPluginError (''Unknown plugin 'auth/nosuch'' @ [CHR 0x27])",
             THEN conjunct1, THEN mp, THEN conjunct1] cls(3)
  have failed: "extend_scheme example_world (example_selectors ''nosuch'' [])
                  (get_config_scheme [''kvmd''])
                = Inl (UnknownPluginError (''Unknown plugin 'auth/nosuch'' @ [CHR 0x27]))"
    by (simp only: sel)
  show ?thesis
    using inst [where config = "example_selectors ''htpasswd'' []" and e = "OtherError []"]
          inst [where config = "example_selectors ''htpasswd'' ''pam''" and e = "OtherError []"]
    by (simp add: none pam sel cls failed base extend_scheme_def scheme_set3_def scheme_kvmd_def
        scheme_kvmd_auth_def dict_get_def get_plugin_options_def htpasswd_plugin_def pam_plugin_def
        BasePlugin_get_plugin_options_def)
qed

text \<open>
  Claim C4 as it is written, with the slot of an empty selector staying empty while
  pass 2 validates nothing extra there, fails for the internal selector: the lookup is
  made with no test of the selector, the registry looks the empty name up as
  \<^verbatim>\<open>auth/\<close>, and in the example environment \<^verbatim>\<open>_init_config\<close> exits with
  \<^verbatim>\<open>Config error: Unknown plugin 'auth/'\<close> before pass 2.
\<close>

theorem init_config_empty_internal_selector:
  "internal_type example_world (example_selectors [] []) = []
   \<and> extend_scheme example_world (example_selectors [] []) (get_config_scheme [''kvmd''])
       = Inl (UnknownPluginError (''Unknown plugin 'auth/'' @ [CHR 0x27]))
   \<and> init_config example_world ''/etc/kvmd/main.yaml'' [''kvmd''] [''kvmd/auth/internal_type='']
       = Inl (SystemExit (''Config error: Unknown plugin 'auth/'' @ [CHR 0x27]))"
proof -
  have a: "internal_type example_world (example_selectors [] []) = []"
    by (simp add: example_world_def example_selectors_def resolved_string_def dict_get_def)
  have b: "extend_scheme example_world (example_selectors [] []) (get_config_scheme [''kvmd''])
       = Inl (UnknownPluginError (''Unknown plugin 'auth/'' @ [CHR 0x27]))"
    by code_simp
  have c: "init_config example_world ''/etc/kvmd/main.yaml'' [''kvmd''] [''kvmd/auth/internal_type='']
       = Inl (SystemExit (''Config error: Unknown plugin 'auth/'' @ [CHR 0x27]))"
    by code_simp
  from a b c show ?thesis by (intro conjI)
qed

section \<open>The orchestration\<close>

lemma except_config_error_Inr [simp]: "except_config_error (Inr c) = Inr c"
  by (simp add: except_config_error_def)

lemma except_config_error_eq_Inr: "except_config_error r = Inr c \<longleftrightarrow> r = Inr c"
  by (auto simp: except_config_error_def split: sum.splits exn.splits)

lemma except_config_error_ConfigError [simp]:
  "except_config_error (Inl (ConfigError msg)) = Inl (SystemExit (''Config error: '' @ msg))"
  by (simp add: except_config_error_def)

lemma except_config_error_UnknownPluginError [simp]:
  "except_config_error (Inl (UnknownPluginError msg)) = Inl (SystemExit (''Config error: '' @ msg))"
  by (simp add: except_config_error_def)

text \<open>\<^verbatim>\<open>_init_config\<close> once the file is loaded and the overrides are built.\<close>

lemma init_config_loaded:
  "load_yaml_file w (expanduser w config_path) = Inr raw_config \<Longrightarrow>
   build_raw_from_options w override_options = Inr overrides \<Longrightarrow>
   init_config w config_path sections override_options =
     except_config_error
       (case make_config w (merge_trees raw_config overrides) (get_config_scheme sections) of
          Inl e \<Rightarrow> Inl e
        | Inr config \<Rightarrow>
            if ''kvmd'' \<in> set sections
            then (case extend_scheme w config (get_config_scheme sections) of
                    Inl e \<Rightarrow> Inl e
                  | Inr scheme2 \<Rightarrow> make_config w (merge_trees raw_config overrides) scheme2)
            else Inr config)"
  by (simp add: init_config_def init_config_body_def Let_def)

text \<open>Of the result of pass 1 only the two selectors are read.\<close>

lemma extend_scheme_selectors:
  assumes "internal_type w c = internal_type w c'" and "external_type w c = external_type w c'"
  shows "extend_scheme w c s = extend_scheme w c' s"
  unfolding extend_scheme_def assms ..

lemma example_loaded:
  "load_yaml_file example_world (expanduser example_world ''/etc/kvmd/main.yaml'') = Inr example_merged"
  by (simp add: example_world_def)

lemma example_no_overrides:
  "build_raw_from_options example_world [] = Inr []"
  by (simp add: example_world_def example_overrides_def)

text \<open>
  Claim C5, as amended. With the file loaded and the overrides built: when \<^verbatim>\<open>"kvmd"\<close>
  is among the requested sections, \<^verbatim>\<open>_init_config\<close> does what the two-phase protocol
  says: pass 2 runs over the same merged raw mapping as pass 1, against the scheme
  extended from the selectors of the pass-1 result, and what pass 2 returns is what
  \<^verbatim>\<open>_init_config\<close> returns (a \<^verbatim>\<open>ConfigError\<close> or \<^verbatim>\<open>UnknownPluginError\<close> on the way
  becomes the exit). When \<^verbatim>\<open>"kvmd"\<close> is not among the sections there is one pass only
  and its result is returned. Two pass-1 results with the same selectors give the same
  extended scheme: nothing else of pass 1 is kept.
\<close>

theorem init_config_second_pass:
  assumes "load_yaml_file w (expanduser w config_path) = Inr raw_config"
    and "build_raw_from_options w override_options = Inr overrides"
  shows "(''kvmd'' \<in> set sections \<longrightarrow>
            init_config w config_path sections override_options
              = except_config_error
                  (pass2_config w (merge_trees raw_config overrides) (get_config_scheme sections)))
       \<and> (''kvmd'' \<in> set sections \<and>
          pass2_config w (merge_trees raw_config overrides) (get_config_scheme sections) = Inr config2
          \<longrightarrow> init_config w config_path sections override_options = Inr config2)
       \<and> (''kvmd'' \<notin> set sections \<longrightarrow>
            init_config w config_path sections override_options
              = except_config_error
                  (make_config w (merge_trees raw_config overrides) (get_config_scheme sections)))
       \<and> (internal_type w c = internal_type w c' \<and> external_type w c = external_type w c' \<longrightarrow>
            extend_scheme w c s = extend_scheme w c' s)"
proof -
  have two: "init_config w config_path sections override_options
              = except_config_error
                  (pass2_config w (merge_trees raw_config overrides) (get_config_scheme sections))"
    if "''kvmd'' \<in> set sections"
    using that unfolding init_config_loaded [OF assms] pass2_config_def
    by (simp split: sum.splits)
  have one: "init_config w config_path sections override_options
              = except_config_error
                  (make_config w (merge_trees raw_config overrides) (get_config_scheme sections))"
    if "''kvmd'' \<notin> set sections"
    using that unfolding init_config_loaded [OF assms]
    by (simp split: sum.splits)
  from two one extend_scheme_selectors [of w c c' s] show ?thesis
    by simp
qed

text \<open>
  The theorem in the example environment: with the section \<^verbatim>\<open>kvmd\<close> the returned
  configuration holds the resolved options of the internal plugin; with the section
  \<^verbatim>\<open>ipmi\<close> alone it is the result of the only pass.
\<close>

theorem init_config_second_pass_witness:
  "load_yaml_file example_world (expanduser example_world ''/etc/kvmd/main.yaml'') = Inr example_merged
   \<and> build_raw_from_options example_world [] = Inr []
   \<and> ''kvmd'' \<in> set [''kvmd'']
   \<and> init_config example_world ''/etc/kvmd/main.yaml'' [''kvmd''] []
       = except_config_error (pass2_config example_world (merge_trees example_merged [])
           (get_config_scheme [''kvmd'']))
   \<and> returned_at (init_config example_world ''/etc/kvmd/main.yaml'' [''kvmd''] [])
        [''kvmd'', ''auth'', ''internal'']
       = Inr (Some (Resolved [(''file'', Value (Scalar (SStr ''/etc/kvmd/htpasswd'')))]))
   \<and> ''kvmd'' \<notin> set [''ipmi'']
   \<and> init_config example_world ''/etc/kvmd/main.yaml'' [''ipmi''] []
       = except_config_error (make_config example_world (merge_trees example_merged [])
           (get_config_scheme [''ipmi'']))
   \<and> returned_at (init_config example_world ''/etc/kvmd/main.yaml'' [''ipmi''] [])
        [''ipmi'', ''server'', ''port'']
       = Inr (Some (Value (Scalar (SInt 623))))"
proof -
  have a: "returned_at (init_config example_world ''/etc/kvmd/main.yaml'' [''kvmd''] [])
        [''kvmd'', ''auth'', ''internal'']
       = Inr (Some (Resolved [(''file'', Value (Scalar (SStr ''/etc/kvmd/htpasswd'')))]))"
    by code_simp
  have b: "returned_at (init_config example_world ''/etc/kvmd/main.yaml'' [''ipmi''] [])
        [''ipmi'', ''server'', ''port'']
       = Inr (Some (Value (Scalar (SInt 623))))"
    by code_simp
  note two = init_config_second_pass [OF example_loaded example_no_overrides,
                where sections = "[''kvmd'']", THEN conjunct1]
  note one = init_config_second_pass [OF example_loaded example_no_overrides,
                where sections = "[''ipmi'']", THEN conjunct2, THEN conjunct2, THEN conjunct1]
  show ?thesis
    using two one example_loaded example_no_overrides a b
    by simp
qed

text \<open>
  Claim C5 as it is written fails when \<^verbatim>\<open>"kvmd"\<close> is not among the sections, and
  so for the empty list, for which \<^verbatim>\<open>_get_config_scheme\<close> returns the full scheme
  with its \<^verbatim>\<open>kvmd\<close> section: in the example environment the configuration returned
  for the empty list has the selector \<^verbatim>\<open>internal_type\<close> and no options of the plugin,
  while the pass-2 configuration of the protocol has them. What is returned is the
  result of pass 1.
\<close>

theorem init_config_empty_sections_single_pass:
  "returned_at (init_config example_world ''/etc/kvmd/main.yaml'' [] [])
     [''kvmd'', ''auth'', ''internal''] = Inr None
   \<and> returned_at (init_config example_world ''/etc/kvmd/main.yaml'' [] [])
     [''kvmd'', ''auth'', ''internal_type''] = Inr (Some (Value (Scalar (SStr ''htpasswd''))))
   \<and> returned_at
       (except_config_error (pass2_config example_world (merge_trees example_merged [])
          (get_config_scheme [])))
       [''kvmd'', ''auth'', ''internal'']
     = Inr (Some (Resolved [(''file'', Value (Scalar (SStr ''/etc/kvmd/htpasswd'')))]))
   \<and> init_config example_world ''/etc/kvmd/main.yaml'' [] []
     \<noteq> except_config_error (pass2_config example_world (merge_trees example_merged [])
          (get_config_scheme []))"
proof -
  have a: "returned_at (init_config example_world ''/etc/kvmd/main.yaml'' [] [])
     [''kvmd'', ''auth'', ''internal''] = Inr None"
    by code_simp
  have b: "returned_at (init_config example_world ''/etc/kvmd/main.yaml'' [] [])
     [''kvmd'', ''auth'', ''internal_type''] = Inr (Some (Value (Scalar (SStr ''htpasswd''))))"
    by code_simp
  have c: "returned_at
       (except_config_error (pass2_config example_world (merge_trees example_merged [])
          (get_config_scheme [])))
       [''kvmd'', ''auth'', ''internal'']
     = Inr (Some (Resolved [(''file'', Value (Scalar (SStr ''/etc/kvmd/htpasswd'')))]))"
    by code_simp
  have "init_config example_world ''/etc/kvmd/main.yaml'' [] []
     \<noteq> except_config_error (pass2_config example_world (merge_trees example_merged [])
          (get_config_scheme []))"
  proof
    assume "init_config example_world ''/etc/kvmd/main.yaml'' [] []
      = except_config_error (pass2_config example_world (merge_trees example_merged [])
          (get_config_scheme []))"
    with a have "returned_at
       (except_config_error (pass2_config example_world (merge_trees example_merged [])
          (get_config_scheme [])))
       [''kvmd'', ''auth'', ''internal''] = Inr None"
      by (simp only:)
    with c show False by (simp only: sum.inject option.distinct)
  qed
  with a b c show ?thesis by (intro conjI)
qed

text \<open>
  What \<^verbatim>\<open>_init_config\<close> does with the exceptions its \<^verbatim>\<open>except\<close> clause names. With
  the file loaded, it exits with the message \<^verbatim>\<open>Config error: ...\<close> carrying the
  message of the failure when the overrides fail with \<^verbatim>\<open>ConfigError\<close>, when pass 1
  fails with \<^verbatim>\<open>ConfigError\<close>, when the registry fails with \<^verbatim>\<open>UnknownPluginError\<close> on
  the internal or on the external selector while the scheme is extended, and when
  pass 2 fails with \<^verbatim>\<open>ConfigError\<close>. It returns a configuration only when every step
  has succeeded, and then the configuration is the result of the last pass: no partial
  configuration is returned.
\<close>

lemma init_config_fails_fatally:
  assumes "load_yaml_file w (expanduser w config_path) = Inr raw_config"
  shows
    "(build_raw_from_options w override_options = Inl (ConfigError msg) \<longrightarrow>
        init_config w config_path sections override_options
          = Inl (SystemExit (''Config error: '' @ msg)))
     \<and> (build_raw_from_options w override_options = Inr overrides \<longrightarrow>
          (make_config w (merge_trees raw_config overrides) (get_config_scheme sections)
             = Inl (ConfigError msg) \<longrightarrow>
           init_config w config_path sections override_options
             = Inl (SystemExit (''Config error: '' @ msg)))
        \<and> (make_config w (merge_trees raw_config overrides) (get_config_scheme sections)
             = Inr config \<and> ''kvmd'' \<in> set sections \<longrightarrow>
             (get_auth_service_class w (internal_type w config) = Inl (UnknownPluginError msg) \<longrightarrow>
              init_config w config_path sections override_options
                = Inl (SystemExit (''Config error: '' @ msg)))
           \<and> (get_auth_service_class w (internal_type w config) = Inr internal_cls \<and>
              external_type w config \<noteq> [] \<and>
              get_auth_service_class w (external_type w config) = Inl (UnknownPluginError msg) \<longrightarrow>
              init_config w config_path sections override_options
                = Inl (SystemExit (''Config error: '' @ msg)))
           \<and> (extend_scheme w config (get_config_scheme sections) = Inr scheme2 \<and>
              make_config w (merge_trees raw_config overrides) scheme2 = Inl (ConfigError msg) \<longrightarrow>
              init_config w config_path sections override_options
                = Inl (SystemExit (''Config error: '' @ msg))))
        \<and> (init_config w config_path sections override_options = Inr result \<longrightarrow>
             (\<exists>config. make_config w (merge_trees raw_config overrides) (get_config_scheme sections)
                         = Inr config \<and>
                (if ''kvmd'' \<in> set sections
                 then \<exists>scheme2. extend_scheme w config (get_config_scheme sections) = Inr scheme2 \<and>
                        make_config w (merge_trees raw_config overrides) scheme2 = Inr result
                 else result = config))))
     \<and> (init_config w config_path sections override_options = Inr result \<longrightarrow>
          (\<exists>overrides. build_raw_from_options w override_options = Inr overrides))"
proof -
  let ?run = "init_config w config_path sections override_options"
  let ?base = "get_config_scheme sections"
  have build_fails: "?run = Inl (SystemExit (''Config error: '' @ msg))"
    if "build_raw_from_options w override_options = Inl (ConfigError msg)"
    using assms that by (simp add: init_config_def init_config_body_def)
  have build_needed: "\<exists>overrides. build_raw_from_options w override_options = Inr overrides"
    if "?run = Inr result"
    using assms that
    by (cases "build_raw_from_options w override_options")
       (auto simp: init_config_def init_config_body_def except_config_error_eq_Inr)
  {
    assume b: "build_raw_from_options w override_options = Inr overrides"
    let ?merged = "merge_trees raw_config overrides"
    note run = init_config_loaded [OF assms b, of sections]
    have pass1: "?run = Inl (SystemExit (''Config error: '' @ msg))"
      if "make_config w ?merged ?base = Inl (ConfigError msg)"
      unfolding run using that by simp
    have internal: "?run = Inl (SystemExit (''Config error: '' @ msg))"
      if "make_config w ?merged ?base = Inr config" "''kvmd'' \<in> set sections"
         "get_auth_service_class w (internal_type w config) = Inl (UnknownPluginError msg)"
      unfolding run using that by (simp add: extend_scheme_def)
    have external: "?run = Inl (SystemExit (''Config error: '' @ msg))"
      if "make_config w ?merged ?base = Inr config" "''kvmd'' \<in> set sections"
         "get_auth_service_class w (internal_type w config) = Inr internal_cls"
         "external_type w config \<noteq> []"
         "get_auth_service_class w (external_type w config) = Inl (UnknownPluginError msg)"
      unfolding run using that
      by (simp add: extend_scheme_def
          scheme_set3_sections [OF kvmd_selected [OF that(2)] auth_in_kvmd])
    have pass2: "?run = Inl (SystemExit (''Config error: '' @ msg))"
      if "make_config w ?merged ?base = Inr config" "''kvmd'' \<in> set sections"
         "extend_scheme w config ?base = Inr scheme2"
         "make_config w ?merged scheme2 = Inl (ConfigError msg)"
      unfolding run using that by simp
    have complete: "\<exists>config. make_config w ?merged ?base = Inr config \<and>
                (if ''kvmd'' \<in> set sections
                 then \<exists>scheme2. extend_scheme w config ?base = Inr scheme2 \<and>
                        make_config w ?merged scheme2 = Inr result
                 else result = config)"
      if "?run = Inr result"
      using that unfolding run except_config_error_eq_Inr
      by (auto split: sum.splits if_splits)
    note pass1 internal external pass2 complete
  }
  with build_fails build_needed show ?thesis
    by blast
qed

text \<open>
  The lemma in the example environment: an override without a value, an unregistered
  internal plugin, an unregistered external plugin, a port that fails pass 1, and a
  file of the internal plugin that fails pass 2.
\<close>

lemma init_config_fails_fatally_example:
  "load_yaml_file example_world (expanduser example_world ''/etc/kvmd/main.yaml'') = Inr example_merged
   \<and> build_raw_from_options example_world [''kvmd/auth/internal_type'']
       = Inl (ConfigError ''No value for key'')
   \<and> init_config example_world ''/etc/kvmd/main.yaml'' [''kvmd''] [''kvmd/auth/internal_type'']
       = Inl (SystemExit ''Config error: No value for key'')
   \<and> ''kvmd'' \<in> set [''kvmd'']
   \<and> returned_at
        (make_config example_world
           (merge_trees example_merged
              [(''kvmd'', Dict [(''auth'', Dict [(''internal_type'', Scalar (SStr ''nosuch''))])])])
           (get_config_scheme [''kvmd'']))
        [''kvmd'', ''auth'', ''internal_type'']
       = Inr (Some (Value (Scalar (SStr ''nosuch''))))
   \<and> get_auth_service_class example_world ''nosuch''
       = Inl (UnknownPluginError (''Unknown plugin 'auth/nosuch'' @ [CHR 0x27]))
   \<and> init_config example_world ''/etc/kvmd/main.yaml'' [''kvmd''] [''kvmd/auth/internal_type=nosuch'']
       = Inl (SystemExit (''Config error: Unknown plugin 'auth/nosuch'' @ [CHR 0x27]))
   \<and> init_config example_world ''/etc/kvmd/main.yaml'' [''kvmd''] [''kvmd/auth/external_type=ldap'']
       = Inl (SystemExit (''Config error: Unknown plugin 'auth/ldap'' @ [CHR 0x27]))
   \<and> init_config example_world ''/etc/kvmd/main.yaml'' [''kvmd''] [''kvmd/server/port=70000'']
       = Inl (SystemExit ''Config error: kvmd.server.port: not a port'')
   \<and> init_config example_world ''/etc/kvmd/main.yaml'' [''kvmd'']
        [''kvmd/auth/internal/file=/nonexistent'']
       = Inl (SystemExit ''Config error: kvmd.auth.internal.file: no such file'')"
proof -
  let ?tokens = "[''kvmd/auth/internal_type=nosuch'']"
  let ?overrides = "[(''kvmd'', Dict [(''auth'', Dict [(''internal_type'', Scalar (SStr ''nosuch''))])])]"
  let ?pass1 = "make_config example_world (merge_trees example_merged ?overrides)
                  (get_config_scheme [''kvmd''])"
  note fatal = init_config_fails_fatally [OF example_loaded]
  have bad: "build_raw_from_options example_world [''kvmd/auth/internal_type'']
               = Inl (ConfigError ''No value for key'')"
    by (simp add: example_world_def example_overrides_def)
  from fatal [where override_options = "[''kvmd/auth/internal_type'']"
                and msg = "''No value for key''" and sections = "[''kvmd'']", THEN conjunct1] bad
  have no_value: "init_config example_world ''/etc/kvmd/main.yaml'' [''kvmd'']
                    [''kvmd/auth/internal_type'']
                  = Inl (SystemExit ''Config error: No value for key'')"
    by simp
  have build: "build_raw_from_options example_world ?tokens = Inr ?overrides"
    by (simp add: example_world_def example_overrides_def)
  have selector: "returned_at ?pass1 [''kvmd'', ''auth'', ''internal_type'']
                    = Inr (Some (Value (Scalar (SStr ''nosuch''))))"
    by code_simp
  then obtain config where config: "?pass1 = Inr config"
    and name: "internal_type example_world config = ''nosuch''"
    by (cases ?pass1) (auto simp: returned_at_def example_world_def resolved_string_def)
  have unknown: "get_auth_service_class example_world ''nosuch''
                   = Inl (UnknownPluginError (''Unknown plugin 'auth/nosuch'' @ [CHR 0x27]))"
    by (simp add: example_world_def get_plugin_class_def example_import_def
        plugin_module_name_def unknown_plugin_message_def)
  from fatal [where override_options = ?tokens and overrides = ?overrides
                and sections = "[''kvmd'']" and config = config
                and msg = "''Unknown plugin 'auth/nosuch'' @ [CHR 0x27]",
              THEN conjunct2, THEN conjunct1, THEN mp, OF build, THEN conjunct2, THEN conjunct1]
       config name unknown
  have registry: "init_config example_world ''/etc/kvmd/main.yaml'' [''kvmd''] ?tokens
                    = Inl (SystemExit (''Config error: Unknown plugin 'auth/nosuch'' @ [CHR 0x27]))"
    by simp
  have external: "init_config example_world ''/etc/kvmd/main.yaml'' [''kvmd'']
                    [''kvmd/auth/external_type=ldap'']
                  = Inl (SystemExit (''Config error: Unknown plugin 'auth/ldap'' @ [CHR 0x27]))"
    by code_simp
  have pass1: "init_config example_world ''/etc/kvmd/main.yaml'' [''kvmd''] [''kvmd/server/port=70000'']
                 = Inl (SystemExit ''Config error: kvmd.server.port: not a port'')"
    by code_simp
  have pass2: "init_config example_world ''/etc/kvmd/main.yaml'' [''kvmd'']
                 [''kvmd/auth/internal/file=/nonexistent'']
               = Inl (SystemExit ''Config error: kvmd.auth.internal.file: no such file'')"
    by code_simp
  from example_loaded bad no_value selector unknown registry external pass1 pass2
  show ?thesis by (simp only: list.set insert_iff simp_thms)
qed

text \<open>
  An exception of the registry that the \<^verbatim>\<open>except\<close> clause does not name leaves
  \<^verbatim>\<open>_init_config\<close> as it is: the \<^verbatim>\<open>AttributeError\<close> of a module without \<^verbatim>\<open>Plugin\<close>,
  raised for the internal selector, is what the caller gets.
\<close>

lemma init_config_attribute_error:
  assumes "load_yaml_file w (expanduser w config_path) = Inr raw_config"
    and "build_raw_from_options w override_options = Inr overrides"
    and "make_config w (merge_trees raw_config overrides) (get_config_scheme sections) = Inr config"
    and "''kvmd'' \<in> set sections"
    and "get_auth_service_class w (internal_type w config) = Inl (AttributeError name)"
  shows "init_config w config_path sections override_options = Inl (AttributeError name)"
  unfolding init_config_loaded [OF assms(1,2)]
  using assms(3,4,5) by (simp add: extend_scheme_def except_config_error_def)

text \<open>
  Claim C6 says that a failure of the registry while the scheme is extended is
  surfaced as a configuration error. The code surfaces \<^verbatim>\<open>UnknownPluginError\<close> and
  \<^verbatim>\<open>ConfigError\<close> only: in the example environment, with the internal selector
  overridden to \<^verbatim>\<open>__init__\<close>, whose module imports and has no \<^verbatim>\<open>Plugin\<close>, pass 1
  succeeds, the registry raises \<^verbatim>\<open>AttributeError\<close>, and \<^verbatim>\<open>_init_config\<close> ends with that
  \<^verbatim>\<open>AttributeError\<close> and not with the exit \<^verbatim>\<open>Config error: ...\<close>, which a selector
  that names no module gives.
\<close>

theorem init_config_malformed_plugin:
  "returned_at
     (make_config example_world
        (merge_trees example_merged
           [(''kvmd'', Dict [(''auth'', Dict [(''internal_type'', Scalar (SStr ''__init__''))])])])
        (get_config_scheme [''kvmd'']))
     [''kvmd'', ''auth'', ''internal_type'']
     = Inr (Some (Value (Scalar (SStr ''__init__''))))
   \<and> get_auth_service_class example_world ''__init__'' = Inl (AttributeError ''Plugin'')
   \<and> init_config example_world ''/etc/kvmd/main.yaml'' [''kvmd'']
        [''kvmd/auth/internal_type=__init__'']
       = Inl (AttributeError ''Plugin'')
   \<and> init_config example_world ''/etc/kvmd/main.yaml'' [''kvmd'']
        [''kvmd/auth/internal_type=nosuch'']
       = Inl (SystemExit (''Config error: Unknown plugin 'auth/nosuch'' @ [CHR 0x27]))"
proof -
  have a: "returned_at
     (make_config example_world
        (merge_trees example_merged
           [(''kvmd'', Dict [(''auth'', Dict [(''internal_type'', Scalar (SStr ''__init__''))])])])
        (get_config_scheme [''kvmd'']))
     [''kvmd'', ''auth'', ''internal_type'']
     = Inr (Some (Value (Scalar (SStr ''__init__''))))"
    by code_simp
  have b: "get_auth_service_class example_world ''__init__'' = Inl (AttributeError ''Plugin'')"
    by (simp add: example_world_def get_plugin_class_def example_import_def
        plugin_module_name_def getattr_def dict_get_def)
  have c: "init_config example_world ''/etc/kvmd/main.yaml'' [''kvmd'']
        [''kvmd/auth/internal_type=__init__'']
       = Inl (AttributeError ''Plugin'')"
    by code_simp
  have d: "init_config example_world ''/etc/kvmd/main.yaml'' [''kvmd'']
        [''kvmd/auth/internal_type=nosuch'']
       = Inl (SystemExit (''Config error: Unknown plugin 'auth/nosuch'' @ [CHR 0x27]))"
    by code_simp
  from a b c d show ?thesis by (intro conjI)
qed

section \<open>One resolution pass\<close>

lemma entry_failures_Option:
  "entry_failures validate truthy path r siblings (k, Option d ty only_if ub) =
     (if option_active truthy siblings only_if
      then (case validate ty (raw_or_default r k d) of
              Inl m \<Rightarrow> {(path @ [k], m)}
            | Inr v \<Rightarrow> {})
      else {})"
  by (auto simp: entry_failures_def split: sum.splits)

lemma entry_failures_Section:
  "entry_failures validate truthy path r siblings (k, Section s) =
     {(p, m). \<exists>q. leaf_fails validate truthy (sub_mapping r k) s q m \<and> p = path @ k # q}"
  by (simp add: entry_failures_def)

text \<open>An invalid leaf lies below one child of the section.\<close>

lemma leaf_fails_iff:
  "leaf_fails validate truthy r sch p m \<longleftrightarrow>
     (\<exists>e \<in> set sch. (p, m) \<in> entry_failures validate truthy [] r (first_subpass validate r sch) e)"
proof
  assume "leaf_fails validate truthy r sch p m"
  then show "\<exists>e \<in> set sch.
               (p, m) \<in> entry_failures validate truthy [] r (first_subpass validate r sch) e"
    by (cases rule: leaf_fails.cases) (force simp: entry_failures_def)+
next
  assume "\<exists>e \<in> set sch.
            (p, m) \<in> entry_failures validate truthy [] r (first_subpass validate r sch) e"
  then obtain k n where e: "(k, n) \<in> set sch"
    and f: "(p, m) \<in> entry_failures validate truthy [] r (first_subpass validate r sch) (k, n)"
    by auto
  show "leaf_fails validate truthy r sch p m"
  proof (cases n)
    case (Option d ty only_if ub)
    with e f show ?thesis
      by (auto simp: entry_failures_def intro: leaf_fails.option_fails)
  next
    case (Section s)
    with e f show ?thesis
      by (auto simp: entry_failures_def intro: leaf_fails.section_fails)
  qed
qed

lemma entry_failures_prefix:
  "(p, m) \<in> entry_failures validate truthy path r siblings e \<longleftrightarrow>
     (\<exists>q. p = path @ q \<and> (q, m) \<in> entry_failures validate truthy [] r siblings e)"
  by (cases e; cases "snd e") (auto simp: entry_failures_def)

text \<open>The walk records exactly the failures below the children it visits.\<close>

lemma resolve_entries_failures:
  "set (fst (resolve_entries validate truthy path r siblings sch)) =
     (\<Union>e \<in> set sch. entry_failures validate truthy path r siblings e)"
proof (induction validate truthy path r siblings sch rule: resolve_entries.induct)
  case (1 validate truthy path r siblings)
  then show ?case by simp
next
  case (2 validate truthy path r siblings k d ty only_if ub rest)
  then show ?case
    by (auto simp: entry_failures_Option split: prod.splits sum.splits)
next
  case (3 validate truthy path r siblings k s rest)
  let ?r = "sub_mapping r k"
  have "set (fst (resolve_entries validate truthy (path @ [k]) ?r (first_subpass validate ?r s) s))
          = {(p, m). \<exists>q. leaf_fails validate truthy ?r s q m \<and> p = path @ k # q}"
  proof -
    have "(p, m) \<in> (\<Union>e \<in> set s. entry_failures validate truthy (path @ [k]) ?r
                        (first_subpass validate ?r s) e)
          \<longleftrightarrow> (\<exists>q. leaf_fails validate truthy ?r s q m \<and> p = path @ k # q)" for p m
      unfolding leaf_fails_iff
      by (auto simp: entry_failures_prefix [where path = "path @ [k]"])
    then show ?thesis
      unfolding "3.IH"(1) by auto
  qed
  then show ?case
    using "3.IH"(2) [OF prod.collapse]
    by (auto simp: entry_failures_Section split: prod.splits)
qed

lemma resolve_failures:
  "set (fst (resolve_entries validate truthy [] raw (first_subpass validate raw schema) schema))
     = {(p, m). leaf_fails validate truthy raw schema p m}"
  by (auto simp: resolve_entries_failures leaf_fails_iff)

text \<open>A pass returns a section exactly when the document has no invalid leaf.\<close>

lemma resolve_succeeds_iff:
  "(\<exists>c. resolve validate truthy raw schema = Inr c) \<longleftrightarrow>
   (\<forall>p m. \<not> leaf_fails validate truthy raw schema p m)"
proof -
  obtain errs out where run:
    "resolve_entries validate truthy [] raw (first_subpass validate raw schema) schema = (errs, out)"
    by (cases "resolve_entries validate truthy [] raw (first_subpass validate raw schema) schema")
  with resolve_failures [of validate truthy raw schema]
  have "set errs = {(p, m). leaf_fails validate truthy raw schema p m}"
    by simp
  then have "set errs = {} \<longleftrightarrow> (\<forall>p m. \<not> leaf_fails validate truthy raw schema p m)"
    by auto
  then have "errs = [] \<longleftrightarrow> (\<forall>p m. \<not> leaf_fails validate truthy raw schema p m)"
    by simp
  then show ?thesis
    by (auto simp: resolve_def run)
qed

text \<open>
  Claim C9. When a raw document has two invalid leaves at different paths (in the same
  section or in different ones), one resolution pass fails with a single
  \<^verbatim>\<open>ConfigError\<close> whose collected pairs hold both failures with their paths, and hold
  exactly the invalid leaves of the document: the pass goes on after the first failure
  and reports every one.
\<close>

theorem resolve_aggregates_failures:
  assumes "leaf_fails validate truthy raw schema p1 m1"
    and "leaf_fails validate truthy raw schema p2 m2"
    and "p1 \<noteq> p2"
  shows "\<exists>errs. resolve validate truthy raw schema = Inl errs
           \<and> (p1, m1) \<in> set errs \<and> (p2, m2) \<in> set errs
           \<and> set errs = {(p, m). leaf_fails validate truthy raw schema p m}"
proof -
  obtain errs out where run:
    "resolve_entries validate truthy [] raw (first_subpass validate raw schema) schema = (errs, out)"
    by (cases "resolve_entries validate truthy [] raw (first_subpass validate raw schema) schema")
  with resolve_failures [of validate truthy raw schema]
  have all: "set errs = {(p, m). leaf_fails validate truthy raw schema p m}"
    by simp
  with assms(1,2) have both: "(p1, m1) \<in> set errs" "(p2, m2) \<in> set errs"
    by simp_all
  then have "errs \<noteq> []" by auto
  then have "resolve validate truthy raw schema = Inl errs"
    by (simp add: resolve_def run)
  with both all show ?thesis by blast
qed

text \<open>
  The theorem on the \<^verbatim>\<open>ipmi\<close> sections of the scheme and a document whose two ports,
  in the sections \<^verbatim>\<open>ipmi/server\<close> and \<^verbatim>\<open>ipmi/kvmd\<close>, are both out of range.
\<close>

theorem resolve_aggregates_failures_witness:
  "leaf_fails example_validate example_truthy example_invalid (get_config_scheme [''ipmi''])
     [''ipmi'', ''server'', ''port''] ''not a port''
   \<and> leaf_fails example_validate example_truthy example_invalid (get_config_scheme [''ipmi''])
     [''ipmi'', ''kvmd'', ''port''] ''not a port''
   \<and> [''ipmi'', ''server'', ''port''] \<noteq> [''ipmi'', ''kvmd'', ''port'']
   \<and> resolve example_validate example_truthy example_invalid (get_config_scheme [''ipmi''])
     = Inl [([''ipmi'', ''server'', ''port''], ''not a port''),
            ([''ipmi'', ''kvmd'', ''port''], ''not a port'')]"
proof -
  let ?errs = "[([''ipmi'', ''server'', ''port''], ''not a port''),
               ([''ipmi'', ''kvmd'', ''port''], ''not a port'')]"
  have run: "resolve example_validate example_truthy example_invalid (get_config_scheme [''ipmi''])
               = Inl ?errs"
    by code_simp
  have walk: "fst (resolve_entries example_validate example_truthy [] example_invalid
                (first_subpass example_validate example_invalid (get_config_scheme [''ipmi'']))
                (get_config_scheme [''ipmi''])) = ?errs"
    by code_simp
  from resolve_failures [of example_validate example_truthy example_invalid
         "get_config_scheme [''ipmi'']"]
  have leaves: "{(p, m). leaf_fails example_validate example_truthy example_invalid
                   (get_config_scheme [''ipmi'']) p m} = set ?errs"
    unfolding walk by simp
  have server: "leaf_fails example_validate example_truthy example_invalid
                  (get_config_scheme [''ipmi'']) [''ipmi'', ''server'', ''port''] ''not a port''"
    and kvmd: "leaf_fails example_validate example_truthy example_invalid
                  (get_config_scheme [''ipmi'']) [''ipmi'', ''kvmd'', ''port''] ''not a port''"
    using leaves by auto
  have differ: "[''ipmi'', ''server'', ''port''] \<noteq> [''ipmi'', ''kvmd'', ''port'']"
    by simp
  from resolve_aggregates_failures [OF server kvmd differ] run server kvmd differ
  show ?thesis by (intro conjI)
qed

end
